theory Spec2Isabelle
  imports Complex_Main
begin

section \<open>JavaScript numbers\<close>

text \<open>
  The engine of \<^verbatim>\<open>src/App.tsx\<close> computes with JavaScript numbers. A number is
  modelled as an exact real, or one of the three special values that JavaScript
  arithmetic produces where the reals have no answer: dividing by zero gives
  \<open>PInf\<close>, \<open>NInf\<close> or \<open>NaN\<close>, and every comparison with \<open>NaN\<close> is false.
  Finite values are exact: binary rounding, overflow and the sign of zero are not
  modelled. A statement that names an arithmetic expression of the code names it with
  these operations, in the code's order of evaluation.
\<close>

datatype jsnum = Fin real | PInf | NInf | NaN

instantiation jsnum :: "{plus, minus, uminus, times, inverse, abs, ord}"
begin

fun plus_jsnum :: "jsnum \<Rightarrow> jsnum \<Rightarrow> jsnum" where
  "Fin a + Fin b = Fin (a + b)"
| "Fin a + PInf = PInf"
| "Fin a + NInf = NInf"
| "Fin a + NaN = NaN"
| "PInf + Fin b = PInf"
| "PInf + PInf = PInf"
| "PInf + NInf = NaN"
| "PInf + NaN = NaN"
| "NInf + Fin b = NInf"
| "NInf + PInf = NaN"
| "NInf + NInf = NInf"
| "NInf + NaN = NaN"
| "NaN + y = NaN"

fun uminus_jsnum :: "jsnum \<Rightarrow> jsnum" where
  "- Fin a = Fin (- a)"
| "- PInf = NInf"
| "- NInf = PInf"
| "- NaN = NaN"

fun minus_jsnum :: "jsnum \<Rightarrow> jsnum \<Rightarrow> jsnum" where
  "Fin a - Fin b = Fin (a - b)"
| "Fin a - PInf = NInf"
| "Fin a - NInf = PInf"
| "Fin a - NaN = NaN"
| "PInf - Fin b = PInf"
| "PInf - PInf = NaN"
| "PInf - NInf = PInf"
| "PInf - NaN = NaN"
| "NInf - Fin b = NInf"
| "NInf - PInf = NInf"
| "NInf - NInf = NaN"
| "NInf - NaN = NaN"
| "NaN - y = NaN"

fun times_jsnum :: "jsnum \<Rightarrow> jsnum \<Rightarrow> jsnum" where
  "Fin a * Fin b = Fin (a * b)"
| "Fin a * PInf = (if a = 0 then NaN else if 0 < a then PInf else NInf)"
| "Fin a * NInf = (if a = 0 then NaN else if 0 < a then NInf else PInf)"
| "Fin a * NaN = NaN"
| "PInf * Fin b = (if b = 0 then NaN else if 0 < b then PInf else NInf)"
| "PInf * PInf = PInf"
| "PInf * NInf = NInf"
| "PInf * NaN = NaN"
| "NInf * Fin b = (if b = 0 then NaN else if 0 < b then NInf else PInf)"
| "NInf * PInf = NInf"
| "NInf * NInf = PInf"
| "NInf * NaN = NaN"
| "NaN * y = NaN"

fun divide_jsnum :: "jsnum \<Rightarrow> jsnum \<Rightarrow> jsnum" where
  "divide_jsnum (Fin a) (Fin b) =
     (if b = 0 then (if a = 0 then NaN else if 0 < a then PInf else NInf)
      else Fin (a / b))"
| "divide_jsnum (Fin a) PInf = Fin 0"
| "divide_jsnum (Fin a) NInf = Fin 0"
| "divide_jsnum (Fin a) NaN = NaN"
| "divide_jsnum PInf (Fin b) = (if 0 \<le> b then PInf else NInf)"
| "divide_jsnum PInf PInf = NaN"
| "divide_jsnum PInf NInf = NaN"
| "divide_jsnum PInf NaN = NaN"
| "divide_jsnum NInf (Fin b) = (if 0 \<le> b then NInf else PInf)"
| "divide_jsnum NInf PInf = NaN"
| "divide_jsnum NInf NInf = NaN"
| "divide_jsnum NInf NaN = NaN"
| "divide_jsnum NaN y = NaN"

definition inverse_jsnum :: "jsnum \<Rightarrow> jsnum" where
  "inverse_jsnum x = divide (Fin 1) x"

fun abs_jsnum :: "jsnum \<Rightarrow> jsnum" where
  "\<bar>Fin a\<bar> = Fin \<bar>a\<bar>"
| "\<bar>PInf\<bar> = PInf"
| "\<bar>NInf\<bar> = PInf"
| "\<bar>NaN\<bar> = NaN"

fun less_jsnum :: "jsnum \<Rightarrow> jsnum \<Rightarrow> bool" where
  "Fin a < Fin b = (a < b)"
| "Fin a < PInf = True"
| "Fin a < NInf = False"
| "Fin a < NaN = False"
| "PInf < y = False"
| "NInf < Fin b = True"
| "NInf < PInf = True"
| "NInf < NInf = False"
| "NInf < NaN = False"
| "NaN < y = False"

fun less_eq_jsnum :: "jsnum \<Rightarrow> jsnum \<Rightarrow> bool" where
  "Fin a \<le> Fin b = (a \<le> b)"
| "Fin a \<le> PInf = True"
| "Fin a \<le> NInf = False"
| "Fin a \<le> NaN = False"
| "PInf \<le> Fin b = False"
| "PInf \<le> PInf = True"
| "PInf \<le> NInf = False"
| "PInf \<le> NaN = False"
| "NInf \<le> Fin b = True"
| "NInf \<le> PInf = True"
| "NInf \<le> NInf = True"
| "NInf \<le> NaN = False"
| "NaN \<le> y = False"

instance ..

end

text \<open>\<^verbatim>\<open>Math.round\<close> rounds to the nearest integer, a half towards plus infinity.\<close>

fun Math_round :: "jsnum \<Rightarrow> jsnum" where
  "Math_round (Fin a) = Fin (of_int \<lfloor>a + 1 / 2\<rfloor>)"
| "Math_round x = x"

fun Math_ceil :: "jsnum \<Rightarrow> jsnum" where
  "Math_ceil (Fin a) = Fin (of_int \<lceil>a\<rceil>)"
| "Math_ceil x = x"

fun Math_min :: "jsnum \<Rightarrow> jsnum \<Rightarrow> jsnum" where
  "Math_min NaN y = NaN"
| "Math_min x NaN = NaN"
| "Math_min x y = (if x \<le> y then x else y)"

text \<open>
  \<^verbatim>\<open>Math.pow(x, n)\<close> for a natural exponent; any base to the power 0 is 1. A finite
  power is exact and does not overflow.
\<close>

fun Math_pow :: "jsnum \<Rightarrow> nat \<Rightarrow> jsnum" where
  "Math_pow (Fin a) n = Fin (a ^ n)"
| "Math_pow PInf n = (if n = 0 then Fin 1 else PInf)"
| "Math_pow NInf n = (if n = 0 then Fin 1 else if even n then PInf else NInf)"
| "Math_pow NaN n = (if n = 0 then Fin 1 else NaN)"

text \<open>The loop index \<open>i\<close> as a number.\<close>

definition num :: "nat \<Rightarrow> jsnum" where
  "num i = Fin (real i)"

text \<open>
  How often \<^verbatim>\<open>for (let i = 0; i < limit; i++)\<close> runs its body. The engine's limit
  is a \<^verbatim>\<open>Math.min(_, 3000)\<close>, which is never plus infinity.
\<close>

fun loopCount :: "jsnum \<Rightarrow> nat" where
  "loopCount (Fin r) = nat \<lceil>r\<rceil>"
| "loopCount x = 0"

text \<open>
  \<^verbatim>\<open>parseFloat(x.toFixed(2))\<close>: two decimals, a half away from zero; from \<open>10^21\<close> on
  \<^verbatim>\<open>toFixed\<close> prints the number itself. The value rounded is the exact one, not its
  binary representation.
\<close>

fun toFixed2 :: "jsnum \<Rightarrow> jsnum" where
  "toFixed2 (Fin a) =
     (if 10 ^ 21 \<le> \<bar>a\<bar> then Fin a
      else if a < 0 then Fin (- (of_int \<lfloor>(- a) * 100 + 1 / 2\<rfloor> / 100))
      else Fin (of_int \<lfloor>a * 100 + 1 / 2\<rfloor> / 100))"
| "toFixed2 x = x"

text \<open>Decimal digits of a loop index, for the template strings of the labels.\<close>

fun digit :: "nat \<Rightarrow> char" where
  "digit n = (''0123456789'' ! (n mod 10))"

function show_nat :: "nat \<Rightarrow> string" where
  "show_nat n = (if n < 10 then [digit n] else show_nat (n div 10) @ [digit n])"
  by pat_completeness auto
termination
  by (relation "measure (\<lambda>n. n)") auto

declare show_nat.simps [simp del]

section \<open>Types of the engine\<close>

text \<open>
  An order is of one of three kinds; a position has the kind of the order that it
  fills, or is the hedge.
\<close>

datatype otype = ENTRY | MAIN | DYN

datatype ptype = Grid otype | HEDGE

datatype direction = LONG | SHORT

record Position =
  p_id :: string
  p_type :: ptype
  level :: string
  price :: jsnum
  lot :: jsnum
  totalLot :: jsnum
  avgPrice :: jsnum
  dist :: jsnum
  indivPnL :: jsnum
  cumPnL :: jsnum

record Summary =
  slot :: nat
  s_avgPrice :: jsnum
  pnl :: jsnum
  mainPnL :: jsnum
  hedgePnL :: jsnum
  s_totalLot :: jsnum
  s_hedgeLot :: jsnum
  netLot :: jsnum
  rangeCovered :: jsnum
  beDistance :: jsnum
  recoveryGap :: jsnum
  netAvgPrice :: jsnum
  s_isHedged :: bool
  s_hedgeTriggerPrice :: "jsnum option"

record SimulationResult =
  positions :: "Position list"
  summary :: Summary

record HedgeConfig =
  enabled :: bool
  stopLossAmount :: jsnum
  lotMulti :: jsnum
  slMulti :: jsnum

text \<open>An element of \<^verbatim>\<open>potentialOrders\<close>.\<close>

record Order =
  o_type :: otype
  o_label :: string
  o_price :: jsnum
  o_lot :: jsnum

section \<open>The calculation engine\<close>

definition normalizeLot :: "jsnum \<Rightarrow> jsnum" where
  "normalizeLot val = Math_round (val * Fin 100) / Fin 100"

definition type_name :: "otype \<Rightarrow> string" where
  "type_name t = (case t of ENTRY \<Rightarrow> ''ENTRY'' | MAIN \<Rightarrow> ''MAIN'' | DYN \<Rightarrow> ''DYN'')"

definition dirMult :: "direction \<Rightarrow> jsnum" where
  "dirMult direction = (if direction = LONG then Fin 1 else Fin (- 1))"

definition loopLimit :: "jsnum \<Rightarrow> jsnum \<Rightarrow> jsnum \<Rightarrow> jsnum" where
  "loopLimit entryPrice maxPrice step =
     (let distance = \<bar>entryPrice - maxPrice\<bar>;
          calculatedSteps = Math_ceil (distance / step);
          safetyLimit = Fin 3000
      in Math_min (calculatedSteps + Fin 10) safetyLimit)"

text \<open>The body of the first loop: the main ladder's order \<open>i\<close>.\<close>

definition mainOrder :: "jsnum \<Rightarrow> jsnum \<Rightarrow> jsnum \<Rightarrow> jsnum \<Rightarrow> direction \<Rightarrow> nat \<Rightarrow> Order" where
  "mainOrder entryPrice step initLot multi direction i =
     (let p = (if direction = LONG then entryPrice - (num i * step) else entryPrice + (num i * step));
          rawLot = (if i = 0 then initLot else initLot * Math_pow multi i);
          l = normalizeLot rawLot
      in \<lparr> o_type = (if i = 0 then ENTRY else MAIN),
           o_label = (if i = 0 then ''ENTRY'' else ''L-'' @ show_nat i),
           o_price = p, o_lot = l \<rparr>)"

definition mainLadder :: "jsnum \<Rightarrow> jsnum \<Rightarrow> jsnum \<Rightarrow> jsnum \<Rightarrow> jsnum \<Rightarrow> direction \<Rightarrow> Order list" where
  "mainLadder entryPrice maxPrice step initLot multi direction =
     map (mainOrder entryPrice step initLot multi direction)
       [0 ..< loopCount (loopLimit entryPrice maxPrice step)]"

text \<open>The body of the second loop; \<^verbatim>\<open>(i+1.5).toFixed(1)\<close> prints \<open>i + 1\<close> and \<open>.5\<close>.\<close>

definition dynOrder :: "jsnum \<Rightarrow> jsnum \<Rightarrow> jsnum \<Rightarrow> jsnum \<Rightarrow> direction \<Rightarrow> nat \<Rightarrow> Order" where
  "dynOrder entryPrice step initLot multi direction i =
     (let offset = (num i * step) + (step * Fin (3 / 2));
          p = (if direction = LONG then entryPrice - offset else entryPrice + offset);
          dynExponent = i + 2;
          rawDynLot = initLot * Math_pow multi dynExponent;
          dynLot = normalizeLot rawDynLot
      in \<lparr> o_type = DYN, o_label = ''D-'' @ show_nat (i + 1) @ ''.5'',
           o_price = p, o_lot = dynLot \<rparr>)"

definition dynLadder :: "jsnum \<Rightarrow> jsnum \<Rightarrow> jsnum \<Rightarrow> jsnum \<Rightarrow> jsnum \<Rightarrow> direction \<Rightarrow> Order list" where
  "dynLadder entryPrice maxPrice step initLot multi direction =
     map (dynOrder entryPrice step initLot multi direction)
       [0 ..< loopCount (loopLimit entryPrice maxPrice step)]"

text \<open>
  \<^verbatim>\<open>Array.prototype.sort\<close> is stable: an element moves behind another one only where
  the comparator's value for the pair is positive (a \<open>NaN\<close> counts as zero).
\<close>

fun insertBy :: "('a \<Rightarrow> 'a \<Rightarrow> jsnum) \<Rightarrow> 'a \<Rightarrow> 'a list \<Rightarrow> 'a list" where
  "insertBy cmp x [] = [x]"
| "insertBy cmp x (y # ys) =
     (if Fin 0 < cmp x y then y # insertBy cmp x ys else x # y # ys)"

definition sortBy :: "('a \<Rightarrow> 'a \<Rightarrow> jsnum) \<Rightarrow> 'a list \<Rightarrow> 'a list" where
  "sortBy cmp xs = foldr (insertBy cmp) xs []"

definition byDistance :: "jsnum \<Rightarrow> Order \<Rightarrow> Order \<Rightarrow> jsnum" where
  "byDistance entryPrice a b = \<bar>entryPrice - o_price a\<bar> - \<bar>entryPrice - o_price b\<bar>"

definition potentialOrders ::
  "jsnum \<Rightarrow> jsnum \<Rightarrow> jsnum \<Rightarrow> jsnum \<Rightarrow> jsnum \<Rightarrow> direction \<Rightarrow> bool \<Rightarrow> Order list" where
  "potentialOrders entryPrice maxPrice step initLot multi direction useDynamic =
     (let orders = mainLadder entryPrice maxPrice step initLot multi direction
                   @ (if useDynamic then dynLadder entryPrice maxPrice step initLot multi direction else []);
          sorted = sortBy (byDistance entryPrice) orders
      in if 3000 < length sorted then take 3000 sorted else sorted)"

definition calcBasketPnL :: "jsnum \<Rightarrow> direction \<Rightarrow> jsnum \<Rightarrow> jsnum \<Rightarrow> jsnum \<Rightarrow> jsnum" where
  "calcBasketPnL contractSize direction atPrice avg lots =
     (atPrice - avg) * lots * contractSize * dirMult direction"

definition calcSinglePnL :: "jsnum \<Rightarrow> direction \<Rightarrow> jsnum \<Rightarrow> jsnum \<Rightarrow> jsnum \<Rightarrow> jsnum" where
  "calcSinglePnL contractSize direction atPrice openPrice l =
     (atPrice - openPrice) * l * contractSize * dirMult direction"

text \<open>The mutable locals of \<^verbatim>\<open>calculateSimulation\<close> that the walk over the orders updates.\<close>

record Basket =
  executedPositions :: "Position list"
  currentTotalLot :: jsnum
  currentTotalCost :: jsnum
  currentAvgPrice :: jsnum
  isHedged :: bool
  hedgeTriggerPrice :: jsnum
  hedgeLot :: jsnum
  hedgeEntryPrice :: jsnum

definition initialBasket :: "jsnum \<Rightarrow> Basket" where
  "initialBasket entryPrice =
     \<lparr> executedPositions = [], currentTotalLot = Fin 0, currentTotalCost = Fin 0,
       currentAvgPrice = entryPrice, isHedged = False, hedgeTriggerPrice = Fin 0,
       hedgeLot = Fin 0, hedgeEntryPrice = Fin 0 \<rparr>"

text \<open>
  The net average price of a basket against its hedge; the source computes it at three
  places with the same expression.
\<close>

definition hedgedNetAvgPrice :: "jsnum \<Rightarrow> jsnum \<Rightarrow> jsnum \<Rightarrow> jsnum \<Rightarrow> jsnum" where
  "hedgedNetAvgPrice avg lots hPrice hLot =
     (if Fin (1 / 1000) < \<bar>lots - hLot\<bar>
      then ((avg * lots) - (hPrice * hLot)) / (lots - hLot)
      else Fin 0)"

text \<open>
  Opening the hedge. The source has this block twice, in the loop with the id
  \<^verbatim>\<open>hedge-trigger\<close> and after it with the id \<^verbatim>\<open>hedge-final\<close>; the two differ in the
  id only.
\<close>

definition openHedge ::
  "string \<Rightarrow> jsnum \<Rightarrow> jsnum \<Rightarrow> direction \<Rightarrow> jsnum \<Rightarrow> HedgeConfig \<Rightarrow> Basket \<Rightarrow> Basket" where
  "openHedge ident entryPrice maxPrice direction contractSize hedgeConfig b =
     (let exactTriggerPrice = currentAvgPrice b
            + (stopLossAmount hedgeConfig / (currentTotalLot b * contractSize * dirMult direction));
          hLot = normalizeLot (currentTotalLot b * lotMulti hedgeConfig);
          hedgeIndivPnL = (maxPrice - exactTriggerPrice) * hLot * contractSize * (- dirMult direction);
          netSignedLot = (currentTotalLot b * dirMult direction) + (hLot * - dirMult direction);
          nLot = normalizeLot \<bar>netSignedLot\<bar>;
          nAvgPrice = hedgedNetAvgPrice (currentAvgPrice b) (currentTotalLot b) exactTriggerPrice hLot
      in b \<lparr> isHedged := True, hedgeTriggerPrice := exactTriggerPrice,
             hedgeEntryPrice := exactTriggerPrice, hedgeLot := hLot,
             executedPositions := executedPositions b @
               [\<lparr> p_id = ident, p_type = HEDGE, level = ''HEDGE'', price = exactTriggerPrice,
                  lot = hLot, totalLot = nLot, avgPrice = nAvgPrice,
                  dist = \<bar>entryPrice - exactTriggerPrice\<bar>,
                  indivPnL = hedgeIndivPnL, cumPnL = stopLossAmount hedgeConfig \<rparr>] \<rparr>)"

text \<open>The guard of both hedge checks, at the price \<open>atPrice\<close>.\<close>

definition hedgeCrossed :: "jsnum \<Rightarrow> direction \<Rightarrow> HedgeConfig \<Rightarrow> Basket \<Rightarrow> jsnum \<Rightarrow> bool" where
  "hedgeCrossed contractSize direction hedgeConfig b atPrice =
     (enabled hedgeConfig \<and> \<not> isHedged b \<and> stopLossAmount hedgeConfig < Fin 0
      \<and> Fin 0 < currentTotalLot b
      \<and> calcBasketPnL contractSize direction atPrice (currentAvgPrice b) (currentTotalLot b)
          \<le> stopLossAmount hedgeConfig)"

text \<open>Filling one order: the loop body after the hedge check.\<close>

definition fillOrder :: "jsnum \<Rightarrow> jsnum \<Rightarrow> direction \<Rightarrow> jsnum \<Rightarrow> Order \<Rightarrow> Basket \<Rightarrow> Basket" where
  "fillOrder entryPrice maxPrice direction contractSize order b =
     (let prevLot = currentTotalLot b;
          newTotalLot = normalizeLot (prevLot + o_lot order);
          newTotalCost = currentTotalCost b + o_price order * o_lot order;
          newAvgPrice = newTotalCost / newTotalLot;
          pnlSnapshot = calcBasketPnL contractSize direction (o_price order) newAvgPrice newTotalLot;
          iPnL = calcSinglePnL contractSize direction maxPrice (o_price order) (o_lot order)
      in b \<lparr> currentTotalLot := newTotalLot, currentTotalCost := newTotalCost,
             currentAvgPrice := newAvgPrice,
             executedPositions := executedPositions b @
               [\<lparr> p_id = type_name (o_type order) @ ''-'' @ o_label order,
                  p_type = Grid (o_type order), level = o_label order,
                  price = o_price order, lot = o_lot order, totalLot = newTotalLot,
                  avgPrice = newAvgPrice, dist = \<bar>entryPrice - o_price order\<bar>,
                  indivPnL = iPnL, cumPnL = pnlSnapshot \<rparr>] \<rparr>)"

text \<open>The first test of the loop body: the order lies beyond the boundary.\<close>

definition pastBoundary :: "direction \<Rightarrow> jsnum \<Rightarrow> Order \<Rightarrow> bool" where
  "pastBoundary direction maxPrice order =
     (if direction = LONG then o_price order < maxPrice else maxPrice < o_price order)"

text \<open>
  The loop \<^verbatim>\<open>for (const order of potentialOrders)\<close>: it stops at the first order beyond
  the boundary, and at the order where the hedge opens.
\<close>

fun walk :: "jsnum \<Rightarrow> jsnum \<Rightarrow> direction \<Rightarrow> jsnum \<Rightarrow> HedgeConfig \<Rightarrow> Order list \<Rightarrow> Basket \<Rightarrow> Basket" where
  "walk entryPrice maxPrice direction contractSize hedgeConfig [] b = b"
| "walk entryPrice maxPrice direction contractSize hedgeConfig (order # rest) b =
     (if pastBoundary direction maxPrice order then b
      else if hedgeCrossed contractSize direction hedgeConfig b (o_price order)
      then openHedge ''hedge-trigger'' entryPrice maxPrice direction contractSize hedgeConfig b
      else walk entryPrice maxPrice direction contractSize hedgeConfig rest
             (fillOrder entryPrice maxPrice direction contractSize order b))"

text \<open>The check after the loop, at the boundary price.\<close>

definition finalCheck :: "jsnum \<Rightarrow> jsnum \<Rightarrow> direction \<Rightarrow> jsnum \<Rightarrow> HedgeConfig \<Rightarrow> Basket \<Rightarrow> Basket" where
  "finalCheck entryPrice maxPrice direction contractSize hedgeConfig b =
     (if hedgeCrossed contractSize direction hedgeConfig b maxPrice
      then openHedge ''hedge-final'' entryPrice maxPrice direction contractSize hedgeConfig b
      else b)"

text \<open>Win mode: every position marked again at the exit price.\<close>

definition remark :: "jsnum \<Rightarrow> direction \<Rightarrow> jsnum \<Rightarrow> Position \<Rightarrow> Position" where
  "remark contractSize direction exitPrice p =
     (let v = (if p_type p = HEDGE
               then (exitPrice - price p) * lot p * contractSize * (- dirMult direction)
               else (exitPrice - price p) * lot p * contractSize * dirMult direction)
      in p \<lparr> indivPnL := v \<rparr>)"

text \<open>The two sums of the \<^verbatim>\<open>forEach\<close>, each from 0, in the order of the positions.\<close>

definition sumPnL :: "(Position \<Rightarrow> bool) \<Rightarrow> Position list \<Rightarrow> jsnum" where
  "sumPnL sel ps = foldl (\<lambda>acc p. if sel p then acc + indivPnL p else acc) (Fin 0) ps"

definition nullResult :: SimulationResult where
  "nullResult =
     \<lparr> positions = [],
       summary = \<lparr> slot = 0, s_avgPrice = Fin 0, pnl = Fin 0, mainPnL = Fin 0, hedgePnL = Fin 0,
                   s_totalLot = Fin 0, s_hedgeLot = Fin 0, netLot = Fin 0, rangeCovered = Fin 0,
                   beDistance = Fin 0, recoveryGap = Fin 0, netAvgPrice = Fin 0,
                   s_isHedged = False, s_hedgeTriggerPrice = None \<rparr> \<rparr>"

text \<open>Everything after the walk: net lot and net average, win mode, the summary.\<close>

definition finish ::
  "jsnum \<Rightarrow> jsnum \<Rightarrow> direction \<Rightarrow> jsnum \<Rightarrow> bool \<Rightarrow> jsnum \<Rightarrow> Basket \<Rightarrow> SimulationResult" where
  "finish entryPrice maxPrice direction contractSize isWinMode targetProfit b =
     (let netSignedLot = (currentTotalLot b * dirMult direction)
            + (if isHedged b then hedgeLot b * - dirMult direction else Fin 0);
          nLot = normalizeLot \<bar>netSignedLot\<bar>;
          nAvgPrice = (if isHedged b
                       then hedgedNetAvgPrice (currentAvgPrice b) (currentTotalLot b)
                              (hedgeEntryPrice b) (hedgeLot b)
                       else currentAvgPrice b);
          finalPositions = (if isWinMode
                            then map (remark contractSize direction
                                        (nAvgPrice + (targetProfit * dirMult direction)))
                                   (executedPositions b)
                            else executedPositions b);
          finalHedgePnL = sumPnL (\<lambda>p. p_type p = HEDGE) finalPositions;
          finalMainPnL = sumPnL (\<lambda>p. p_type p \<noteq> HEDGE) finalPositions;
          finalNetPnL = finalMainPnL + finalHedgePnL
      in \<lparr> positions = finalPositions,
           summary = \<lparr> slot = length (filter (\<lambda>p. p_type p \<noteq> HEDGE) finalPositions),
                       s_avgPrice = currentAvgPrice b,
                       pnl = finalNetPnL, mainPnL = finalMainPnL, hedgePnL = finalHedgePnL,
                       s_totalLot = currentTotalLot b,
                       s_hedgeLot = (if isHedged b then hedgeLot b else Fin 0),
                       netLot = nLot,
                       rangeCovered = \<bar>entryPrice - maxPrice\<bar>,
                       beDistance = \<bar>entryPrice - currentAvgPrice b\<bar>,
                       recoveryGap = \<bar>maxPrice - nAvgPrice\<bar>,
                       netAvgPrice = nAvgPrice, s_isHedged = isHedged b,
                       s_hedgeTriggerPrice = (if isHedged b then Some (hedgeTriggerPrice b) else None) \<rparr> \<rparr>)"

text \<open>The basket after the loop and the final check.\<close>

definition accumulate ::
  "jsnum \<Rightarrow> jsnum \<Rightarrow> jsnum \<Rightarrow> jsnum \<Rightarrow> jsnum \<Rightarrow> direction \<Rightarrow> jsnum \<Rightarrow> bool \<Rightarrow> HedgeConfig \<Rightarrow> Basket" where
  "accumulate entryPrice maxPrice step initLot multi direction contractSize useDynamic hedgeConfig =
     finalCheck entryPrice maxPrice direction contractSize hedgeConfig
       (walk entryPrice maxPrice direction contractSize hedgeConfig
          (potentialOrders entryPrice maxPrice step initLot multi direction useDynamic)
          (initialBasket entryPrice))"

definition calculateSimulation ::
  "jsnum \<Rightarrow> jsnum \<Rightarrow> jsnum \<Rightarrow> jsnum \<Rightarrow> jsnum \<Rightarrow> direction \<Rightarrow> jsnum \<Rightarrow> bool \<Rightarrow> HedgeConfig
   \<Rightarrow> bool \<Rightarrow> jsnum \<Rightarrow> SimulationResult" where
  "calculateSimulation entryPrice maxPrice step initLot multi direction contractSize useDynamic
     hedgeConfig isWinMode targetProfit =
     (if step \<le> Fin 0 \<or> initLot \<le> Fin 0 \<or> contractSize \<le> Fin 0 then nullResult
      else finish entryPrice maxPrice direction contractSize isWinMode targetProfit
             (accumulate entryPrice maxPrice step initLot multi direction contractSize
                useDynamic hedgeConfig))"

section \<open>The two solvers\<close>

text \<open>
  The solvers are closures of the component \<^verbatim>\<open>App\<close>: they read its state and write
  \<^verbatim>\<open>range\<close> and \<^verbatim>\<open>maxPrice\<close>. The state they use:
\<close>

record AppState =
  app_entryPrice :: jsnum
  app_range :: jsnum
  app_maxPrice :: jsnum
  app_direction :: direction
  app_step :: jsnum
  app_initLot :: jsnum
  app_multi :: jsnum
  app_contractSize :: jsnum
  app_useDynamic :: bool
  app_useHedge :: bool
  app_hedgeStopLoss :: jsnum
  app_hedgeLotMulti :: jsnum
  app_hedgeSlMulti :: jsnum

text \<open>The engine run of one bisection round: win mode and target profit at their defaults.\<close>

definition simulateAt :: "AppState \<Rightarrow> jsnum \<Rightarrow> SimulationResult" where
  "simulateAt s testMax =
     calculateSimulation (app_entryPrice s) testMax (app_step s) (app_initLot s) (app_multi s)
       (app_direction s) (app_contractSize s) (app_useDynamic s)
       \<lparr> enabled = app_useHedge s, stopLossAmount = app_hedgeStopLoss s,
         lotMulti = app_hedgeLotMulti s, slMulti = app_hedgeSlMulti s \<rparr>
       False (Fin 0)"

definition testMaxAt :: "AppState \<Rightarrow> jsnum \<Rightarrow> jsnum" where
  "testMaxAt s midRange =
     (if app_direction s = LONG then app_entryPrice s - midRange else app_entryPrice s + midRange)"

text \<open>
  The loops \<^verbatim>\<open>for(let i=0; i<30; i++)\<close>, with the number of rounds still to run as the
  first argument; the result is \<^verbatim>\<open>bestMax\<close>.
\<close>

fun bisectBE :: "nat \<Rightarrow> AppState \<Rightarrow> jsnum \<Rightarrow> jsnum \<Rightarrow> jsnum \<Rightarrow> jsnum \<Rightarrow> jsnum" where
  "bisectBE 0 s tBE low high bestMax = bestMax"
| "bisectBE (Suc n) s tBE low high bestMax =
     (let midRange = (low + high) / Fin 2;
          testMax = testMaxAt s midRange;
          res = simulateAt s testMax;
          be = (if s_isHedged (summary res) then netAvgPrice (summary res)
                else s_avgPrice (summary res))
      in if \<bar>be - tBE\<bar> < Fin (1 / 2) then testMax
         else if app_direction s = LONG
         then (if tBE < be then bisectBE n s tBE midRange high bestMax
               else bisectBE n s tBE low midRange bestMax)
         else (if be < tBE then bisectBE n s tBE midRange high bestMax
               else bisectBE n s tBE low midRange bestMax))"

fun bisectPnL :: "nat \<Rightarrow> AppState \<Rightarrow> jsnum \<Rightarrow> jsnum \<Rightarrow> jsnum \<Rightarrow> jsnum \<Rightarrow> jsnum" where
  "bisectPnL 0 s target low high bestMax = bestMax"
| "bisectPnL (Suc n) s target low high bestMax =
     (let midRange = (low + high) / Fin 2;
          testMax = testMaxAt s midRange;
          res = simulateAt s testMax;
          v = pnl (summary res)
      in if \<bar>v - target\<bar> < Fin 10 then testMax
         else if target < v then bisectPnL n s target midRange high bestMax
         else bisectPnL n s target low midRange bestMax)"

text \<open>The two state updates at the end of both solvers.\<close>

definition setRangeAndMax :: "AppState \<Rightarrow> jsnum \<Rightarrow> AppState" where
  "setRangeAndMax s bestMax =
     (let newRange = \<bar>app_entryPrice s - bestMax\<bar>
      in s \<lparr> app_range := toFixed2 newRange, app_maxPrice := toFixed2 bestMax \<rparr>)"

text \<open>\<^verbatim>\<open>!tBE\<close> holds of a number that is zero or \<open>NaN\<close>.\<close>

definition falsy :: "jsnum \<Rightarrow> bool" where
  "falsy x = (x = Fin 0 \<or> x = NaN)"

definition solveForTargetBE :: "AppState \<Rightarrow> jsnum \<Rightarrow> AppState" where
  "solveForTargetBE s tBE =
     (if falsy tBE \<or> tBE \<le> Fin 0 then s
      else setRangeAndMax s (bisectBE 30 s tBE (Fin (1 / 10)) (Fin 5000) (app_maxPrice s)))"

definition solveForTargetPnL :: "AppState \<Rightarrow> jsnum \<Rightarrow> AppState" where
  "solveForTargetPnL s target =
     setRangeAndMax s (bisectPnL 30 s target (Fin (1 / 10)) (Fin 5000) (app_maxPrice s))"

section \<open>Invariant of the walk, and the scenarios of the specification\<close>

text \<open>
  A basket that has no hedge: no hedge record, and the last position (if there is one)
  carries the basket's total lot and average price.
\<close>

definition unhedged :: "Basket \<Rightarrow> bool" where
  "unhedged b =
     (\<not> isHedged b \<and> list_all (\<lambda>p. p_type p \<noteq> HEDGE) (executedPositions b)
      \<and> (if executedPositions b = [] then currentTotalLot b = Fin 0
         else totalLot (last (executedPositions b)) = currentTotalLot b
              \<and> avgPrice (last (executedPositions b)) = currentAvgPrice b))"

text \<open>The real value of a finite number.\<close>

fun realOf :: "jsnum \<Rightarrow> real" where
  "realOf (Fin a) = a"
| "realOf x = 0"

text \<open>
  The hedge configurations of the examples: hedging off, the stop at -500 of the
  specification's scenario B, and a stop at -200.
\<close>

definition noHedge :: HedgeConfig where
  "noHedge = \<lparr> enabled = False, stopLossAmount = Fin (- 4000), lotMulti = Fin 2, slMulti = Fin 2 \<rparr>"

definition hedge500 :: HedgeConfig where
  "hedge500 = \<lparr> enabled = True, stopLossAmount = Fin (- 500), lotMulti = Fin 2, slMulti = Fin 2 \<rparr>"

definition hedge200 :: HedgeConfig where
  "hedge200 = \<lparr> enabled = True, stopLossAmount = Fin (- 200), lotMulti = Fin 2, slMulti = Fin 2 \<rparr>"

text \<open>The initial state of the component \<^verbatim>\<open>App\<close>.\<close>

definition appDefault :: AppState where
  "appDefault =
     \<lparr> app_entryPrice = Fin 2000, app_range = Fin 50, app_maxPrice = Fin 1950,
       app_direction = LONG, app_step = Fin 10, app_initLot = Fin (1 / 100),
       app_multi = Fin (14 / 10), app_contractSize = Fin 100, app_useDynamic = False,
       app_useHedge = False, app_hedgeStopLoss = Fin (- 4000), app_hedgeLotMulti = Fin 2,
       app_hedgeSlMulti = Fin 2 \<rparr>"

text \<open>
  Scenario B of the specification (scenario A with the stop at -500), the same run with
  the stop at -200, with the boundary at 1952 between two rungs, and with an initial lot
  of 0.004.
\<close>

definition scenarioB :: SimulationResult where
  "scenarioB = calculateSimulation (Fin 2000) (Fin 1950) (Fin 10) (Fin (1 / 100)) (Fin (14 / 10))
                 LONG (Fin 100) False hedge500 False (Fin 0)"

definition scenarioB200 :: SimulationResult where
  "scenarioB200 = calculateSimulation (Fin 2000) (Fin 1950) (Fin 10) (Fin (1 / 100)) (Fin (14 / 10))
                    LONG (Fin 100) False hedge200 False (Fin 0)"

definition scenarioGap :: SimulationResult where
  "scenarioGap = calculateSimulation (Fin 2000) (Fin 1952) (Fin 10) (Fin (1 / 100)) (Fin (14 / 10))
                   LONG (Fin 100) False hedge200 False (Fin 0)"

definition scenarioSmallLot :: SimulationResult where
  "scenarioSmallLot = calculateSimulation (Fin 2000) (Fin 1950) (Fin 10) (Fin (4 / 1000))
                        (Fin (14 / 10)) LONG (Fin 100) False noHedge False (Fin 0)"

section \<open>Lists and the walk\<close>

lemma normalizeLot_Fin: "normalizeLot (Fin x) = Fin (of_int \<lfloor>x * 100 + 1 / 2\<rfloor> / 100)"
  by (simp add: normalizeLot_def)

lemma set_insertBy: "set (insertBy cmp x ys) = insert x (set ys)"
  by (induction ys) auto

lemma set_sortBy: "set (sortBy cmp xs) = set xs"
  by (induction xs) (simp_all add: sortBy_def set_insertBy)

lemma length_insertBy: "length (insertBy cmp x ys) = Suc (length ys)"
  by (induction ys) auto

lemma length_sortBy: "length (sortBy cmp xs) = length xs"
  by (induction xs) (simp_all add: sortBy_def length_insertBy)

lemma fillOrder_fields:
  "isHedged (fillOrder e m d cs order b) = isHedged b"
  "length (executedPositions (fillOrder e m d cs order b)) = Suc (length (executedPositions b))"
  by (simp_all add: fillOrder_def Let_def)

lemma walk_cases:
  assumes "P b"
    and "\<And>order b. order \<in> set os \<Longrightarrow> P b \<Longrightarrow> P (fillOrder e m d cs order b)"
  shows "P (walk e m d cs hc os b)
       \<or> (\<exists>b0 k. P b0 \<and> k < length os
             \<and> hedgeCrossed cs d hc b0 (o_price (os ! k))
             \<and> \<not> pastBoundary d m (os ! k)
             \<and> length (executedPositions b0) = length (executedPositions b) + k
             \<and> walk e m d cs hc os b = openHedge ''hedge-trigger'' e m d cs hc b0)"
  using assms
proof (induction os arbitrary: b)
  case Nil
  then show ?case by simp
next
  case (Cons order os)
  let ?far = "pastBoundary d m order"
  show ?case
  proof (cases ?far)
    case True
    then show ?thesis using Cons.prems(1) by simp
  next
    case near: False
    show ?thesis
    proof (cases "hedgeCrossed cs d hc b (o_price order)")
      case True
      with near Cons.prems(1) have
        "P b \<and> 0 < length (order # os) \<and> hedgeCrossed cs d hc b (o_price ((order # os) ! 0))
          \<and> \<not> pastBoundary d m ((order # os) ! 0)
          \<and> length (executedPositions b) = length (executedPositions b) + 0
          \<and> walk e m d cs hc (order # os) b = openHedge ''hedge-trigger'' e m d cs hc b"
        by simp
      then show ?thesis by blast
    next
      case False
      let ?b = "fillOrder e m d cs order b"
      have step: "walk e m d cs hc (order # os) b = walk e m d cs hc os ?b"
        using near False by simp
      have P': "P ?b" using Cons.prems by simp
      have pres: "\<And>order b. order \<in> set os \<Longrightarrow> P b \<Longrightarrow> P (fillOrder e m d cs order b)"
        using Cons.prems(2) by simp
      from Cons.IH[OF P' pres]
      show ?thesis
      proof
        assume "P (walk e m d cs hc os ?b)"
        then show ?thesis using step by simp
      next
        assume "\<exists>b0 k. P b0 \<and> k < length os
             \<and> hedgeCrossed cs d hc b0 (o_price (os ! k))
             \<and> \<not> pastBoundary d m (os ! k)
             \<and> length (executedPositions b0) = length (executedPositions ?b) + k
             \<and> walk e m d cs hc os ?b = openHedge ''hedge-trigger'' e m d cs hc b0"
        then obtain b0 k where k: "P b0" "k < length os"
             "hedgeCrossed cs d hc b0 (o_price (os ! k))"
             "\<not> pastBoundary d m (os ! k)"
             "length (executedPositions b0) = length (executedPositions ?b) + k"
             "walk e m d cs hc os ?b = openHedge ''hedge-trigger'' e m d cs hc b0"
          by blast
        have "P b0 \<and> Suc k < length (order # os)
             \<and> hedgeCrossed cs d hc b0 (o_price ((order # os) ! Suc k))
             \<and> \<not> pastBoundary d m ((order # os) ! Suc k)
             \<and> length (executedPositions b0) = length (executedPositions b) + Suc k
             \<and> walk e m d cs hc (order # os) b = openHedge ''hedge-trigger'' e m d cs hc b0"
          using k step by (simp add: fillOrder_fields)
        then show ?thesis by blast
      qed
    qed
  qed
qed

lemma unhedged_initial: "unhedged (initialBasket e)"
  by (simp add: unhedged_def initialBasket_def)

lemma unhedged_fillOrder: "unhedged b \<Longrightarrow> unhedged (fillOrder e m d cs order b)"
  by (simp add: unhedged_def fillOrder_def Let_def)

lemma hedgeCrossed_not_hedged: "hedgeCrossed cs d hc b x \<Longrightarrow> \<not> isHedged b"
  by (simp add: hedgeCrossed_def)

lemma isHedged_openHedge: "isHedged (openHedge ident e m d cs hc b)"
  by (simp add: openHedge_def Let_def)

lemma accumulate_cases:
  assumes init: "P (initialBasket e)"
    and pres: "\<And>order b. order \<in> set (potentialOrders e m step il mu d ud) \<Longrightarrow> P b
                 \<Longrightarrow> P (fillOrder e m d cs order b)"
  shows "(P (accumulate e m step il mu d cs ud hc)
          \<and> \<not> hedgeCrossed cs d hc (accumulate e m step il mu d cs ud hc) m)
       \<or> (\<exists>b0 k. P b0 \<and> k < length (potentialOrders e m step il mu d ud)
             \<and> hedgeCrossed cs d hc b0 (o_price (potentialOrders e m step il mu d ud ! k))
             \<and> \<not> pastBoundary d m (potentialOrders e m step il mu d ud ! k)
             \<and> length (executedPositions b0) = k
             \<and> accumulate e m step il mu d cs ud hc = openHedge ''hedge-trigger'' e m d cs hc b0)
       \<or> (\<exists>b0. P b0 \<and> hedgeCrossed cs d hc b0 m
             \<and> accumulate e m step il mu d cs ud hc = openHedge ''hedge-final'' e m d cs hc b0)"
proof -
  let ?os = "potentialOrders e m step il mu d ud"
  let ?w = "walk e m d cs hc ?os (initialBasket e)"
  have acc: "accumulate e m step il mu d cs ud hc = finalCheck e m d cs hc ?w"
    by (simp add: accumulate_def)
  from walk_cases[of P "initialBasket e" ?os e m d cs hc, OF init pres]
  consider (plain) "P ?w"
    | (trig) b0 k where "P b0" "k < length ?os" "hedgeCrossed cs d hc b0 (o_price (?os ! k))"
        "\<not> pastBoundary d m (?os ! k)"
        "length (executedPositions b0) = length (executedPositions (initialBasket e)) + k"
        "?w = openHedge ''hedge-trigger'' e m d cs hc b0"
    by blast
  then show ?thesis
  proof cases
    case plain
    show ?thesis
    proof (cases "hedgeCrossed cs d hc ?w m")
      case True
      then have "accumulate e m step il mu d cs ud hc = openHedge ''hedge-final'' e m d cs hc ?w"
        by (simp add: acc finalCheck_def)
      with plain True show ?thesis by blast
    next
      case False
      then have "accumulate e m step il mu d cs ud hc = ?w"
        by (simp add: acc finalCheck_def)
      with plain False show ?thesis by simp
    qed
  next
    case trig
    have "\<not> hedgeCrossed cs d hc ?w m"
      using trig(6) hedgeCrossed_not_hedged isHedged_openHedge by metis
    then have "accumulate e m step il mu d cs ud hc = ?w"
      by (simp add: acc finalCheck_def)
    moreover have "length (executedPositions b0) = k"
      using trig(5) by (simp add: initialBasket_def)
    ultimately show ?thesis using trig by metis
  qed
qed

text \<open>What opening the hedge on an unhedged basket gives.\<close>

lemma openHedge_unhedged:
  assumes u: "unhedged b0" and c: "hedgeCrossed cs d hc b0 x"
  shows "\<exists>ps q h. executedPositions (openHedge ident e m d cs hc b0) = ps @ [q, h]
           \<and> executedPositions b0 = ps @ [q]
           \<and> list_all (\<lambda>p. p_type p \<noteq> HEDGE) (ps @ [q])
           \<and> p_type h = HEDGE \<and> p_id h = ident
           \<and> cumPnL h = stopLossAmount hc
           \<and> price h = avgPrice q + stopLossAmount hc / (totalLot q * cs * dirMult d)
           \<and> lot h = normalizeLot (totalLot q * lotMulti hc)
           \<and> hedgeTriggerPrice (openHedge ident e m d cs hc b0) = price h
           \<and> hedgeEntryPrice (openHedge ident e m d cs hc b0) = price h
           \<and> hedgeLot (openHedge ident e m d cs hc b0) = lot h
           \<and> currentAvgPrice (openHedge ident e m d cs hc b0) = avgPrice q
           \<and> currentTotalLot (openHedge ident e m d cs hc b0) = totalLot q
           \<and> currentAvgPrice b0 = avgPrice q
           \<and> currentTotalLot b0 = totalLot q"
proof -
  have pos: "Fin 0 < currentTotalLot b0" using c by (simp add: hedgeCrossed_def)
  have ne: "executedPositions b0 \<noteq> []"
  proof
    assume "executedPositions b0 = []"
    then have "currentTotalLot b0 = Fin 0" using u by (simp add: unhedged_def)
    with pos show False by simp
  qed
  define ps where "ps = butlast (executedPositions b0)"
  define q where "q = last (executedPositions b0)"
  have split: "executedPositions b0 = ps @ [q]"
    using ne by (simp add: ps_def q_def)
  have q: "totalLot q = currentTotalLot b0" "avgPrice q = currentAvgPrice b0"
    using u ne by (simp_all add: unhedged_def q_def)
  have nh: "list_all (\<lambda>p. p_type p \<noteq> HEDGE) (ps @ [q])"
    using u split by (simp add: unhedged_def)
  show ?thesis
    apply (rule exI[of _ ps], rule exI[of _ q])
    using split q nh by (simp add: openHedge_def Let_def)
qed

lemma remark_fields [simp]:
  "price (remark cs d x p) = price p"
  "lot (remark cs d x p) = lot p"
  "totalLot (remark cs d x p) = totalLot p"
  "avgPrice (remark cs d x p) = avgPrice p"
  "cumPnL (remark cs d x p) = cumPnL p"
  "p_id (remark cs d x p) = p_id p"
  "p_type (remark cs d x p) = p_type p"
  by (simp_all add: remark_def Let_def)

text \<open>The result of a run that is not the null simulation, from its basket.\<close>

lemma finish_fields:
  "s_isHedged (summary (finish e m d cs w tp b)) = isHedged b"
  "s_hedgeTriggerPrice (summary (finish e m d cs w tp b))
     = (if isHedged b then Some (hedgeTriggerPrice b) else None)"
  "s_avgPrice (summary (finish e m d cs w tp b)) = currentAvgPrice b"
  "s_totalLot (summary (finish e m d cs w tp b)) = currentTotalLot b"
  "s_hedgeLot (summary (finish e m d cs w tp b)) = (if isHedged b then hedgeLot b else Fin 0)"
  "map p_type (positions (finish e m d cs w tp b)) = map p_type (executedPositions b)"
  "map p_id (positions (finish e m d cs w tp b)) = map p_id (executedPositions b)"
  "map price (positions (finish e m d cs w tp b)) = map price (executedPositions b)"
  "map lot (positions (finish e m d cs w tp b)) = map lot (executedPositions b)"
  "map totalLot (positions (finish e m d cs w tp b)) = map totalLot (executedPositions b)"
  "map avgPrice (positions (finish e m d cs w tp b)) = map avgPrice (executedPositions b)"
  "map cumPnL (positions (finish e m d cs w tp b)) = map cumPnL (executedPositions b)"
  "length (positions (finish e m d cs w tp b)) = length (executedPositions b)"
  by (simp_all add: finish_def Let_def comp_def)

lemma finish_slot:
  "slot (summary (finish e m d cs w tp b))
     = length (filter (\<lambda>p. p_type p \<noteq> HEDGE) (executedPositions b))"
  by (simp add: finish_def Let_def filter_map comp_def)

lemma finish_positions:
  "positions (finish e m d cs w tp b) = executedPositions b
   \<or> (\<exists>x. positions (finish e m d cs w tp b) = map (remark cs d x) (executedPositions b))"
  by (auto simp add: finish_def Let_def)

lemma finish_last:
  assumes "executedPositions b \<noteq> []"
  shows "price (last (positions (finish e m d cs w tp b))) = price (last (executedPositions b))"
    and "p_id (last (positions (finish e m d cs w tp b))) = p_id (last (executedPositions b))"
  using assms finish_positions[of e m d cs w tp b] by (auto simp add: last_map)

lemma accumulate_unhedged_cases:
  "(unhedged (accumulate e m step il mu d cs ud hc)
          \<and> \<not> hedgeCrossed cs d hc (accumulate e m step il mu d cs ud hc) m)
       \<or> (\<exists>b0 k. unhedged b0 \<and> k < length (potentialOrders e m step il mu d ud)
             \<and> hedgeCrossed cs d hc b0 (o_price (potentialOrders e m step il mu d ud ! k))
             \<and> \<not> pastBoundary d m (potentialOrders e m step il mu d ud ! k)
             \<and> length (executedPositions b0) = k
             \<and> accumulate e m step il mu d cs ud hc = openHedge ''hedge-trigger'' e m d cs hc b0)
       \<or> (\<exists>b0. unhedged b0 \<and> hedgeCrossed cs d hc b0 m
             \<and> accumulate e m step il mu d cs ud hc = openHedge ''hedge-final'' e m d cs hc b0)"
  by (rule accumulate_cases) (simp_all add: unhedged_initial unhedged_fillOrder)

lemma accumulate_hedged:
  assumes "isHedged (accumulate e m step il mu d cs ud hc)"
  shows "\<exists>b0 ident x. unhedged b0 \<and> hedgeCrossed cs d hc b0 x
           \<and> accumulate e m step il mu d cs ud hc = openHedge ident e m d cs hc b0"
proof -
  have "\<not> unhedged (accumulate e m step il mu d cs ud hc)"
    using assms by (simp add: unhedged_def)
  with accumulate_unhedged_cases[of e m step il mu d cs ud hc] show ?thesis by blast
qed

lemma accumulate_not_hedged:
  assumes "\<not> isHedged (accumulate e m step il mu d cs ud hc)"
  shows "unhedged (accumulate e m step il mu d cs ud hc)"
  using accumulate_unhedged_cases[of e m step il mu d cs ud hc] assms isHedged_openHedge
  by metis


lemma filter_none: "list_all (\<lambda>p. p_type p \<noteq> HEDGE) ps \<Longrightarrow> filter (\<lambda>p. p_type p = HEDGE) ps = []"
  by (induction ps) simp_all

lemma filter_all: "list_all (\<lambda>p. p_type p \<noteq> HEDGE) ps \<Longrightarrow> filter (\<lambda>p. p_type p \<noteq> HEDGE) ps = ps"
  by (induction ps) simp_all

lemma basket_lock:
  fixes e m step il mu d cs ud hc
  defines "b \<equiv> accumulate e m step il mu d cs ud hc"
  shows "length (filter (\<lambda>p. p_type p = HEDGE) (executedPositions b)) = (if isHedged b then 1 else 0)
       \<and> list_all (\<lambda>p. p_type p \<noteq> HEDGE \<or> cumPnL p = stopLossAmount hc) (executedPositions b)"
proof (cases "isHedged b")
  case True
  from accumulate_hedged[OF True[unfolded b_def]]
  obtain b0 ident x where b0: "unhedged b0" "hedgeCrossed cs d hc b0 x"
      "b = openHedge ident e m d cs hc b0"
    unfolding b_def by blast
  from openHedge_unhedged[OF b0(1,2), of ident e m]
  obtain ps q h where h: "executedPositions b = ps @ [q, h]"
      "list_all (\<lambda>p. p_type p \<noteq> HEDGE) (ps @ [q])" "p_type h = HEDGE"
      "cumPnL h = stopLossAmount hc"
    unfolding b0(3) by blast
  have "filter (\<lambda>p. p_type p = HEDGE) (ps @ [q]) = []"
    by (rule filter_none[OF h(2)])
  then have "filter (\<lambda>p. p_type p = HEDGE) ((ps @ [q]) @ [h]) = [h]"
    unfolding filter_append using h(3) by simp
  then have "filter (\<lambda>p. p_type p = HEDGE) (executedPositions b) = [h]"
    using h(1) by simp
  moreover have "list_all (\<lambda>p. p_type p \<noteq> HEDGE \<or> cumPnL p = stopLossAmount hc) (ps @ [q])"
    using h(2) by (simp add: list_all_iff)
  ultimately show ?thesis using True h by simp
next
  case False
  then have "unhedged b" unfolding b_def by (rule accumulate_not_hedged)
  then have nh: "list_all (\<lambda>p. p_type p \<noteq> HEDGE) (executedPositions b)"
    by (simp add: unhedged_def)
  then have "list_all (\<lambda>p. p_type p \<noteq> HEDGE \<or> cumPnL p = stopLossAmount hc) (executedPositions b)"
    by (simp add: list_all_iff)
  then show ?thesis using False filter_none[OF nh] by simp
qed


text \<open>What the run records when the hedge opens at a crossing seen at the price \<open>x\<close>.\<close>

lemma openHedge_crossed:
  fixes ident :: string and e m cs x :: jsnum
  assumes u: "unhedged b0" and x: "hedgeCrossed cs d hc b0 x"
  defines "b \<equiv> openHedge ident e m d cs hc b0"
  shows "executedPositions b \<noteq> []
       \<and> p_id (last (executedPositions b)) = ident
       \<and> price (last (executedPositions b))
           = currentAvgPrice b + stopLossAmount hc / (currentTotalLot b * cs * dirMult d)
       \<and> length (filter (\<lambda>p. p_type p \<noteq> HEDGE) (executedPositions b))
           = length (executedPositions b0)
       \<and> calcBasketPnL cs d x (currentAvgPrice b) (currentTotalLot b) \<le> stopLossAmount hc"
proof -
  from openHedge_unhedged[OF u x, of ident e m]
  obtain ps q h where h: "executedPositions b = ps @ [q, h]" "executedPositions b0 = ps @ [q]"
      "list_all (\<lambda>p. p_type p \<noteq> HEDGE) (ps @ [q])" "p_type h = HEDGE" "p_id h = ident"
      "price h = avgPrice q + stopLossAmount hc / (totalLot q * cs * dirMult d)"
      "currentAvgPrice b = avgPrice q" "currentTotalLot b = totalLot q"
      "currentAvgPrice b0 = avgPrice q" "currentTotalLot b0 = totalLot q"
    unfolding b_def by blast
  have "filter (\<lambda>p. p_type p \<noteq> HEDGE) ((ps @ [q]) @ [h]) = ps @ [q]"
    unfolding filter_append using filter_all[OF h(3)] h(4) by simp
  then have len: "length (filter (\<lambda>p. p_type p \<noteq> HEDGE) (executedPositions b))
      = length (executedPositions b0)"
    using h(1,2) by simp
  have "calcBasketPnL cs d x (currentAvgPrice b0) (currentTotalLot b0) \<le> stopLossAmount hc"
    using x by (simp add: hedgeCrossed_def)
  then have "calcBasketPnL cs d x (currentAvgPrice b) (currentTotalLot b) \<le> stopLossAmount hc"
    by (simp add: h(7,8,9,10))
  then show ?thesis using h(1,5,6,7,8) len by simp
qed

section \<open>The ladder on finite inputs\<close>

lemma loopLimit_Fin:
  assumes "0 < st"
  shows "loopLimit (Fin e) (Fin m) (Fin st) = Fin (of_int (min (\<lceil>\<bar>e - m\<bar> / st\<rceil> + 10) 3000))"
  using assms by (simp add: loopLimit_def Let_def min_def)

lemma loopCount_loopLimit:
  assumes "0 < st"
  shows "loopCount (loopLimit (Fin e) (Fin m) (Fin st)) = nat (min (\<lceil>\<bar>e - m\<bar> / st\<rceil> + 10) 3000)"
  unfolding loopLimit_Fin[OF assms] by simp

lemma mainOrder_Fin:
  "o_price (mainOrder (Fin e) (Fin st) (Fin il) (Fin mu) d i)
     = Fin (if d = LONG then e - real i * st else e + real i * st)"
  "o_lot (mainOrder (Fin e) (Fin st) (Fin il) (Fin mu) d i)
     = normalizeLot (Fin (il * mu ^ i))"
  by (simp_all add: mainOrder_def Let_def num_def)


lemma sortBy_sorted:
  assumes "\<And>i. Suc i < length xs \<Longrightarrow> \<not> Fin 0 < cmp (xs ! i) (xs ! Suc i)"
  shows "sortBy cmp xs = xs"
  using assms
proof (induction xs)
  case Nil
  then show ?case by (simp add: sortBy_def)
next
  case (Cons x xs)
  have "\<And>i. Suc i < length xs \<Longrightarrow> \<not> Fin 0 < cmp (xs ! i) (xs ! Suc i)"
    using Cons.prems[of "Suc _"] by simp
  then have IH: "sortBy cmp xs = xs" by (rule Cons.IH)
  have "sortBy cmp (x # xs) = insertBy cmp x xs"
    using IH by (simp add: sortBy_def)
  also have "\<dots> = x # xs"
  proof (cases xs)
    case Nil
    then show ?thesis by simp
  next
    case (Cons y ys)
    then have "\<not> Fin 0 < cmp x y" using Cons.prems[of 0] by simp
    then show ?thesis using Cons by simp
  qed
  finally show ?case .
qed

lemma mainLadder_nth:
  assumes "0 < st" and "i < length (mainLadder (Fin e) (Fin m) (Fin st) (Fin il) (Fin mu) d)"
  shows "mainLadder (Fin e) (Fin m) (Fin st) (Fin il) (Fin mu) d ! i
           = mainOrder (Fin e) (Fin st) (Fin il) (Fin mu) d i"
  using assms by (simp add: mainLadder_def)

lemma mainLadder_sorted:
  assumes "0 < st"
  shows "sortBy (byDistance (Fin e)) (mainLadder (Fin e) (Fin m) (Fin st) (Fin il) (Fin mu) d)
           = mainLadder (Fin e) (Fin m) (Fin st) (Fin il) (Fin mu) d"
proof (rule sortBy_sorted)
  fix i
  let ?xs = "mainLadder (Fin e) (Fin m) (Fin st) (Fin il) (Fin mu) d"
  assume i: "Suc i < length ?xs"
  define x where "x = real i * st"
  have x: "0 \<le> x" using assms by (simp add: x_def)
  have "o_price (?xs ! i) = Fin (if d = LONG then e - x else e + x)"
    using mainLadder_nth[OF assms, of i e m il mu d] i by (simp add: mainOrder_Fin x_def)
  moreover have "o_price (?xs ! Suc i) = Fin (if d = LONG then e - (x + st) else e + (x + st))"
    using mainLadder_nth[OF assms, of "Suc i" e m il mu d] i
    by (simp add: mainOrder_Fin x_def algebra_simps)
  ultimately have "byDistance (Fin e) (?xs ! i) (?xs ! Suc i) = Fin (\<bar>x\<bar> - \<bar>x + st\<bar>)"
    by (simp add: byDistance_def abs_if)
  then show "\<not> Fin 0 < byDistance (Fin e) (?xs ! i) (?xs ! Suc i)"
    using assms x by simp
qed

lemma potentialOrders_plain:
  assumes "0 < st"
  shows "potentialOrders (Fin e) (Fin m) (Fin st) (Fin il) (Fin mu) d False
           = mainLadder (Fin e) (Fin m) (Fin st) (Fin il) (Fin mu) d"
proof -
  have "length (mainLadder (Fin e) (Fin m) (Fin st) (Fin il) (Fin mu) d) \<le> 3000"
    using assms by (simp add: mainLadder_def loopCount_loopLimit)
  then show ?thesis
    using mainLadder_sorted[OF assms] by (simp add: potentialOrders_def Let_def)
qed

text \<open>Every candidate order lies at the entry price or on the adverse side of it.\<close>

lemma dynOrder_Fin:
  "o_price (dynOrder (Fin e) (Fin st) (Fin il) (Fin mu) d i)
     = Fin (if d = LONG then e - (real i * st + st * (3 / 2)) else e + (real i * st + st * (3 / 2)))"
  "o_lot (dynOrder (Fin e) (Fin st) (Fin il) (Fin mu) d i)
     = normalizeLot (Fin (il * mu ^ (i + 2)))"
  by (simp_all add: dynOrder_def Let_def num_def)

lemma set_potentialOrders:
  "set (potentialOrders e m st il mu d ud)
     \<subseteq> set (mainLadder e m st il mu d) \<union> set (dynLadder e m st il mu d)"
  using set_take_subset[of 3000 "sortBy (byDistance e)
      (mainLadder e m st il mu d @ (if ud then dynLadder e m st il mu d else []))"]
  by (auto simp add: potentialOrders_def Let_def set_sortBy split: if_splits)

lemma potentialOrders_adverse:
  assumes "0 \<le> st" and "order \<in> set (potentialOrders (Fin e) (Fin m) (Fin st) (Fin il) (Fin mu) d ud)"
  obtains p l where "o_price order = Fin p" and "o_lot order = Fin l"
    and "if d = LONG then p \<le> e else e \<le> p"
proof -
  from assms(2) set_potentialOrders
  have "order \<in> set (mainLadder (Fin e) (Fin m) (Fin st) (Fin il) (Fin mu) d)
      \<or> order \<in> set (dynLadder (Fin e) (Fin m) (Fin st) (Fin il) (Fin mu) d)"
    by blast
  then show ?thesis
  proof
    assume "order \<in> set (mainLadder (Fin e) (Fin m) (Fin st) (Fin il) (Fin mu) d)"
    then obtain i where i: "order = mainOrder (Fin e) (Fin st) (Fin il) (Fin mu) d i"
      by (auto simp add: mainLadder_def)
    define x where "x = real i * st"
    have x: "0 \<le> x" using assms(1) by (simp add: x_def)
    show ?thesis
    proof (rule that)
      show "o_price order = Fin (if d = LONG then e - x else e + x)"
        by (simp add: i mainOrder_Fin x_def)
      show "o_lot order = Fin (of_int \<lfloor>il * mu ^ i * 100 + 1 / 2\<rfloor> / 100)"
        by (simp add: i mainOrder_Fin normalizeLot_Fin)
      show "if d = LONG then (if d = LONG then e - x else e + x) \<le> e
            else e \<le> (if d = LONG then e - x else e + x)"
        using x by simp
    qed
  next
    assume "order \<in> set (dynLadder (Fin e) (Fin m) (Fin st) (Fin il) (Fin mu) d)"
    then obtain i where i: "order = dynOrder (Fin e) (Fin st) (Fin il) (Fin mu) d i"
      by (auto simp add: dynLadder_def)
    define x where "x = real i * st + st * (3 / 2)"
    have x: "0 \<le> x" using assms(1) by (simp add: x_def)
    show ?thesis
    proof (rule that)
      show "o_price order = Fin (if d = LONG then e - x else e + x)"
        by (simp add: i dynOrder_Fin x_def)
      show "o_lot order = Fin (of_int \<lfloor>il * mu ^ (i + 2) * 100 + 1 / 2\<rfloor> / 100)"
        by (simp add: i dynOrder_Fin normalizeLot_Fin)
      show "if d = LONG then (if d = LONG then e - x else e + x) \<le> e
            else e \<le> (if d = LONG then e - x else e + x)"
        using x by simp
    qed
  qed
qed

lemma walk_stops_at_once:
  assumes "\<And>order. order \<in> set os \<Longrightarrow> pastBoundary d m order"
  shows "walk e m d cs hc os b = b"
  using assms by (cases os) simp_all





text \<open>
  On orders with finite prices the comparator is the difference of two distances, and the
  sort is the library's stable sort by the distance from the entry price.
\<close>

lemma insertBy_insort:
  assumes "o_price x = Fin p" and "\<And>y. y \<in> set ys \<Longrightarrow> \<exists>q. o_price y = Fin q"
  shows "insertBy (byDistance (Fin e)) x ys
           = insort_key (\<lambda>order. \<bar>e - realOf (o_price order)\<bar>) x ys"
  using assms(2)
proof (induction ys)
  case Nil
  show ?case by simp
next
  case (Cons y ys)
  from Cons.prems[of y] obtain q where q: "o_price y = Fin q" by auto
  have cmp: "byDistance (Fin e) x y = Fin (\<bar>e - p\<bar> - \<bar>e - q\<bar>)"
    by (simp add: byDistance_def assms(1) q)
  have "insertBy (byDistance (Fin e)) x ys
           = insort_key (\<lambda>order. \<bar>e - realOf (o_price order)\<bar>) x ys"
    using Cons.prems by (intro Cons.IH) simp
  then show ?case
    by (simp add: cmp assms(1) q not_le)
qed

lemma sortBy_sort_key:
  assumes "\<And>y. y \<in> set xs \<Longrightarrow> \<exists>q. o_price y = Fin q"
  shows "sortBy (byDistance (Fin e)) xs = sort_key (\<lambda>order. \<bar>e - realOf (o_price order)\<bar>) xs"
  using assms
proof (induction xs)
  case Nil
  show ?case by (simp add: sortBy_def)
next
  case (Cons x xs)
  from Cons.prems[of x] obtain p where p: "o_price x = Fin p" by auto
  have IH: "sortBy (byDistance (Fin e)) xs
      = sort_key (\<lambda>order. \<bar>e - realOf (o_price order)\<bar>) xs"
    using Cons.prems by (intro Cons.IH) simp
  have "sortBy (byDistance (Fin e)) (x # xs)
      = insertBy (byDistance (Fin e)) x (sortBy (byDistance (Fin e)) xs)"
    by (simp add: sortBy_def)
  also have "\<dots> = insort_key (\<lambda>order. \<bar>e - realOf (o_price order)\<bar>) x
                     (sortBy (byDistance (Fin e)) xs)"
    using Cons.prems by (intro insertBy_insort[OF p]) (simp add: set_sortBy)
  finally show ?case by (simp add: IH)
qed

section \<open>The scenarios, evaluated\<close>

lemma scenarioB_value:
  "scenarioB =
    \<lparr>positions =
      [\<lparr>p_id = ''ENTRY-ENTRY'', p_type = Grid ENTRY, level = ''ENTRY'', price = Fin 2000,
         lot = Fin (1 / 100), totalLot = Fin (1 / 100), avgPrice = Fin 2000, dist = Fin 0,
         indivPnL = Fin (- 50), cumPnL = Fin 0\<rparr>,
       \<lparr>p_id = ''MAIN-L-1'', p_type = Grid MAIN, level = ''L-1'', price = Fin 1990,
         lot = Fin (1 / 100), totalLot = Fin (1 / 50), avgPrice = Fin 1995, dist = Fin 10,
         indivPnL = Fin (- 40), cumPnL = Fin (- 10)\<rparr>,
       \<lparr>p_id = ''MAIN-L-2'', p_type = Grid MAIN, level = ''L-2'', price = Fin 1980,
         lot = Fin (1 / 50), totalLot = Fin (1 / 25), avgPrice = Fin (3975 / 2), dist = Fin 20,
         indivPnL = Fin (- 60), cumPnL = Fin (- 30)\<rparr>,
       \<lparr>p_id = ''MAIN-L-3'', p_type = Grid MAIN, level = ''L-3'', price = Fin 1970,
         lot = Fin (3 / 100), totalLot = Fin (7 / 100), avgPrice = Fin 1980, dist = Fin 30,
         indivPnL = Fin (- 60), cumPnL = Fin (- 70)\<rparr>,
       \<lparr>p_id = ''MAIN-L-4'', p_type = Grid MAIN, level = ''L-4'', price = Fin 1960,
         lot = Fin (1 / 25), totalLot = Fin (11 / 100), avgPrice = Fin (21700 / 11), dist = Fin 40,
         indivPnL = Fin (- 40), cumPnL = Fin (- 140)\<rparr>,
       \<lparr>p_id = ''MAIN-L-5'', p_type = Grid MAIN, level = ''L-5'', price = Fin 1950,
         lot = Fin (1 / 20), totalLot = Fin (4 / 25), avgPrice = Fin (15725 / 8), dist = Fin 50,
         indivPnL = Fin 0, cumPnL = Fin (- 250)\<rparr>],
     summary =
       \<lparr>slot = 6, s_avgPrice = Fin (15725 / 8), pnl = Fin (- 250), mainPnL = Fin (- 250),
          hedgePnL = Fin 0, s_totalLot = Fin (4 / 25), s_hedgeLot = Fin 0, netLot = Fin (4 / 25),
          rangeCovered = Fin 50, beDistance = Fin (275 / 8), recoveryGap = Fin (125 / 8),
          netAvgPrice = Fin (15725 / 8), s_isHedged = False, s_hedgeTriggerPrice = None\<rparr>\<rparr>"
  by code_simp

lemma scenarioB200_value:
  "scenarioB200 =
    \<lparr>positions =
      [\<lparr>p_id = ''ENTRY-ENTRY'', p_type = Grid ENTRY, level = ''ENTRY'', price = Fin 2000,
         lot = Fin (1 / 100), totalLot = Fin (1 / 100), avgPrice = Fin 2000, dist = Fin 0,
         indivPnL = Fin (- 50), cumPnL = Fin 0\<rparr>,
       \<lparr>p_id = ''MAIN-L-1'', p_type = Grid MAIN, level = ''L-1'', price = Fin 1990,
         lot = Fin (1 / 100), totalLot = Fin (1 / 50), avgPrice = Fin 1995, dist = Fin 10,
         indivPnL = Fin (- 40), cumPnL = Fin (- 10)\<rparr>,
       \<lparr>p_id = ''MAIN-L-2'', p_type = Grid MAIN, level = ''L-2'', price = Fin 1980,
         lot = Fin (1 / 50), totalLot = Fin (1 / 25), avgPrice = Fin (3975 / 2), dist = Fin 20,
         indivPnL = Fin (- 60), cumPnL = Fin (- 30)\<rparr>,
       \<lparr>p_id = ''MAIN-L-3'', p_type = Grid MAIN, level = ''L-3'', price = Fin 1970,
         lot = Fin (3 / 100), totalLot = Fin (7 / 100), avgPrice = Fin 1980, dist = Fin 30,
         indivPnL = Fin (- 60), cumPnL = Fin (- 70)\<rparr>,
       \<lparr>p_id = ''MAIN-L-4'', p_type = Grid MAIN, level = ''L-4'', price = Fin 1960,
         lot = Fin (1 / 25), totalLot = Fin (11 / 100), avgPrice = Fin (21700 / 11), dist = Fin 40,
         indivPnL = Fin (- 40), cumPnL = Fin (- 140)\<rparr>,
       \<lparr>p_id = ''hedge-trigger'', p_type = HEDGE, level = ''HEDGE'', price = Fin (21500 / 11),
         lot = Fin (11 / 50), totalLot = Fin (11 / 100), avgPrice = Fin (21300 / 11),
         dist = Fin (500 / 11), indivPnL = Fin 100, cumPnL = Fin (- 200)\<rparr>],
     summary =
       \<lparr>slot = 5, s_avgPrice = Fin (21700 / 11), pnl = Fin (- 150), mainPnL = Fin (- 250),
          hedgePnL = Fin 100, s_totalLot = Fin (11 / 100), s_hedgeLot = Fin (11 / 50),
          netLot = Fin (11 / 100), rangeCovered = Fin 50, beDistance = Fin (300 / 11),
          recoveryGap = Fin (150 / 11), netAvgPrice = Fin (21300 / 11), s_isHedged = True,
          s_hedgeTriggerPrice = Some (Fin (21500 / 11))\<rparr>\<rparr>"
  by code_simp


lemma scenarioGap_hedge:
  "p_id (last (positions scenarioGap)) = ''hedge-final''
   \<and> price (last (positions scenarioGap)) = Fin (21500 / 11)"
  by code_simp

lemma candidate_of_scenarioB200:
  "o_price (potentialOrders (Fin 2000) (Fin 1950) (Fin 10) (Fin (1 / 100)) (Fin (14 / 10)) LONG False ! 5)
     = Fin 1950"
  by code_simp

section \<open>Scenario B\<close>

text \<open>
  C1, as amended: with entry 2000, boundary 1950, step 10, initial lot 0.01, multiplier
  1.4, LONG, contract size 100, no dynamic ladder and the hedge enabled with stop-loss
  amount -500 and lot multiplier 2, the six rungs of scenario A fill, the basket P&L at
  the boundary is -250, which is above the stop, and no hedge opens: not hedged, no HEDGE
  record, no hedge trigger price, hedge lot 0. With the stop-loss amount -200 the hedge
  opens at the rung 1950: hedged, one HEDGE record (the last position), the trigger price
  21500/11 strictly between 1950 and 2000, and the hedge lot round(0.11 * 2) = 0.22.
\<close>

theorem scenario_B:
  "\<not> s_isHedged (summary scenarioB)
   \<and> map p_type (positions scenarioB)
       = [Grid ENTRY, Grid MAIN, Grid MAIN, Grid MAIN, Grid MAIN, Grid MAIN]
   \<and> map price (positions scenarioB)
       = [Fin 2000, Fin 1990, Fin 1980, Fin 1970, Fin 1960, Fin 1950]
   \<and> map lot (positions scenarioB)
       = [Fin (1 / 100), Fin (1 / 100), Fin (2 / 100), Fin (3 / 100), Fin (4 / 100), Fin (5 / 100)]
   \<and> calcBasketPnL (Fin 100) LONG (Fin 1950) (s_avgPrice (summary scenarioB))
        (s_totalLot (summary scenarioB)) = Fin (- 250)
   \<and> \<not> Fin (- 250) \<le> stopLossAmount hedge500
   \<and> s_hedgeTriggerPrice (summary scenarioB) = None
   \<and> s_hedgeLot (summary scenarioB) = Fin 0
   \<and> stopLossAmount hedge200 = Fin (- 200)
   \<and> s_isHedged (summary scenarioB200)
   \<and> map p_type (positions scenarioB200)
       = [Grid ENTRY, Grid MAIN, Grid MAIN, Grid MAIN, Grid MAIN, HEDGE]
   \<and> s_hedgeTriggerPrice (summary scenarioB200) = Some (Fin (21500 / 11))
   \<and> Fin 1950 < Fin (21500 / 11) \<and> Fin (21500 / 11) < Fin 2000
   \<and> s_totalLot (summary scenarioB200) = Fin (11 / 100)
   \<and> s_hedgeLot (summary scenarioB200) = normalizeLot (s_totalLot (summary scenarioB200) * Fin 2)
   \<and> s_hedgeLot (summary scenarioB200) = Fin (22 / 100)"
  by (simp add: scenarioB_value scenarioB200_value calcBasketPnL_def dirMult_def hedge500_def
      hedge200_def normalizeLot_Fin)

theorem scenario_B_counterexample:
  "s_isHedged (summary scenarioB) = False
   \<and> length (filter (\<lambda>p. p_type p = HEDGE) (positions scenarioB)) = 0
   \<and> s_hedgeTriggerPrice (summary scenarioB) = None"
  by (simp add: scenarioB_value)

section \<open>The hedge\<close>

text \<open>
  C2, as amended: whenever the hedge triggers, the price of the hedge position is not
  the price at which the crossing was detected but the solved trigger price
  \<open>avgPrice + stopLossAmount / (totalLot * contractSize * directionSign)\<close> of the basket
  at the crossing. The detection price is only where the basket P&L was seen at or below
  the stop-loss amount: for the record \<^verbatim>\<open>hedge-trigger\<close> it is the price of the candidate
  order, which is the order number \<open>slot\<close> of the candidate list and is not beyond the
  boundary; for the record \<^verbatim>\<open>hedge-final\<close> it is the boundary price.
\<close>

theorem hedge_entry_price:
  fixes e m st il mu cs tp :: jsnum and d :: direction and ud w :: bool and hc :: HedgeConfig
  defines "R \<equiv> calculateSimulation e m st il mu d cs ud hc w tp"
    and "OS \<equiv> potentialOrders e m st il mu d ud"
  assumes hedged: "s_isHedged (summary R)"
  shows "price (last (positions R))
           = s_avgPrice (summary R)
             + stopLossAmount hc / (s_totalLot (summary R) * cs * dirMult d)
       \<and> (p_id (last (positions R)) = ''hedge-trigger''
            \<and> slot (summary R) < length OS
            \<and> \<not> pastBoundary d m (OS ! slot (summary R))
            \<and> calcBasketPnL cs d (o_price (OS ! slot (summary R)))
                 (s_avgPrice (summary R)) (s_totalLot (summary R)) \<le> stopLossAmount hc
          \<or> p_id (last (positions R)) = ''hedge-final''
            \<and> calcBasketPnL cs d m (s_avgPrice (summary R)) (s_totalLot (summary R))
                 \<le> stopLossAmount hc)"
proof -
  let ?b = "accumulate e m st il mu d cs ud hc"
  have valid: "\<not> (st \<le> Fin 0 \<or> il \<le> Fin 0 \<or> cs \<le> Fin 0)"
    using hedged by (auto simp add: R_def calculateSimulation_def nullResult_def)
  then have r: "R = finish e m d cs w tp ?b"
    by (simp add: R_def calculateSimulation_def)
  have hb: "isHedged ?b" using hedged r by (simp add: finish_fields)
  from accumulate_unhedged_cases[of e m st il mu d cs ud hc]
  consider (plain) "unhedged ?b"
    | (trig) b0 k where "unhedged b0" "k < length OS"
        "hedgeCrossed cs d hc b0 (o_price (OS ! k))" "\<not> pastBoundary d m (OS ! k)"
        "length (executedPositions b0) = k"
        "?b = openHedge ''hedge-trigger'' e m d cs hc b0"
    | (final) b0 where "unhedged b0" "hedgeCrossed cs d hc b0 m"
        "?b = openHedge ''hedge-final'' e m d cs hc b0"
    unfolding OS_def by blast
  then show ?thesis
  proof cases
    case plain
    then show ?thesis using hb by (simp add: unhedged_def)
  next
    case trig
    from openHedge_crossed[OF trig(1,3), of "''hedge-trigger''" e m]
    have T: "executedPositions ?b \<noteq> []"
        "p_id (last (executedPositions ?b)) = ''hedge-trigger''"
        "price (last (executedPositions ?b))
           = currentAvgPrice ?b + stopLossAmount hc / (currentTotalLot ?b * cs * dirMult d)"
        "length (filter (\<lambda>p. p_type p \<noteq> HEDGE) (executedPositions ?b)) = k"
        "calcBasketPnL cs d (o_price (OS ! k)) (currentAvgPrice ?b) (currentTotalLot ?b)
           \<le> stopLossAmount hc"
      unfolding trig(6)[symmetric] trig(5) by simp_all
    have "slot (summary R) = k" using T(4) by (simp add: r finish_slot)
    then show ?thesis
      using T trig(2,4) finish_last[OF T(1), of e m d cs w tp]
      by (simp add: r finish_fields)
  next
    case final
    from openHedge_crossed[OF final(1,2), of "''hedge-final''" e m]
    have T: "executedPositions ?b \<noteq> []"
        "p_id (last (executedPositions ?b)) = ''hedge-final''"
        "price (last (executedPositions ?b))
           = currentAvgPrice ?b + stopLossAmount hc / (currentTotalLot ?b * cs * dirMult d)"
        "calcBasketPnL cs d m (currentAvgPrice ?b) (currentTotalLot ?b) \<le> stopLossAmount hc"
      unfolding final(3)[symmetric] by simp_all
    then show ?thesis
      using finish_last[OF T(1), of e m d cs w tp]
      by (simp add: r finish_fields)
  qed
qed

theorem hedge_entry_price_witness:
  "s_isHedged (summary scenarioB200)
   \<and> price (last (positions scenarioB200))
       = s_avgPrice (summary scenarioB200)
         + stopLossAmount hedge200 / (s_totalLot (summary scenarioB200) * Fin 100 * dirMult LONG)
   \<and> p_id (last (positions scenarioB200)) = ''hedge-trigger''
   \<and> calcBasketPnL (Fin 100) LONG
        (o_price (potentialOrders (Fin 2000) (Fin 1950) (Fin 10) (Fin (1 / 100)) (Fin (14 / 10))
           LONG False ! slot (summary scenarioB200)))
        (s_avgPrice (summary scenarioB200)) (s_totalLot (summary scenarioB200))
       \<le> stopLossAmount hedge200"
proof -
  have h: "s_isHedged (summary scenarioB200)" by (simp add: scenarioB200_value)
  have i: "p_id (last (positions scenarioB200)) \<noteq> ''hedge-final''"
    by (simp add: scenarioB200_value)
  from hedge_entry_price[OF h[unfolded scenarioB200_def]]
  show ?thesis using h i unfolding scenarioB200_def by blast
qed

theorem hedge_entry_price_counterexample:
  "p_id (last (positions scenarioB200)) = ''hedge-trigger''
   \<and> o_price (potentialOrders (Fin 2000) (Fin 1950) (Fin 10) (Fin (1 / 100)) (Fin (14 / 10)) LONG False
        ! slot (summary scenarioB200)) = Fin 1950
   \<and> price (last (positions scenarioB200)) = Fin (21500 / 11)
   \<and> Fin (21500 / 11) \<noteq> Fin 1950
   \<and> p_id (last (positions scenarioGap)) = ''hedge-final''
   \<and> price (last (positions scenarioGap)) = Fin (21500 / 11)
   \<and> Fin (21500 / 11) \<noteq> Fin 1952"
  using scenarioGap_hedge candidate_of_scenarioB200 by (simp add: scenarioB200_value)

text \<open>
  C3: whenever a hedge triggers, in the walk or in the final check, the trigger price,
  which is the price of the hedge position and the summary's hedge trigger price, is
  \<open>avgPrice + stopLossAmount / (totalLot * contractSize * directionSign)\<close> at the basket
  state of the crossing: the average price and total lot of the last filled position
  \<open>q\<close>, which the summary reports too.
\<close>

theorem hedge_trigger_price:
  assumes "s_isHedged (summary (calculateSimulation e m step il mu d cs ud hc w tp))"
  shows "\<exists>ps q h. positions (calculateSimulation e m step il mu d cs ud hc w tp) = ps @ [q, h]
           \<and> p_type q \<noteq> HEDGE \<and> p_type h = HEDGE
           \<and> price h = avgPrice q + stopLossAmount hc / (totalLot q * cs * dirMult d)
           \<and> s_hedgeTriggerPrice (summary (calculateSimulation e m step il mu d cs ud hc w tp))
               = Some (price h)
           \<and> s_avgPrice (summary (calculateSimulation e m step il mu d cs ud hc w tp)) = avgPrice q
           \<and> s_totalLot (summary (calculateSimulation e m step il mu d cs ud hc w tp)) = totalLot q"
proof -
  let ?r = "calculateSimulation e m step il mu d cs ud hc w tp"
  let ?b = "accumulate e m step il mu d cs ud hc"
  have valid: "\<not> (step \<le> Fin 0 \<or> il \<le> Fin 0 \<or> cs \<le> Fin 0)"
    using assms by (auto simp add: calculateSimulation_def nullResult_def)
  then have r: "?r = finish e m d cs w tp ?b"
    by (simp add: calculateSimulation_def)
  have hedged: "isHedged ?b" using assms r by (simp add: finish_fields)
  from accumulate_hedged[OF hedged]
  obtain b0 ident x where b0: "unhedged b0" "hedgeCrossed cs d hc b0 x"
      "?b = openHedge ident e m d cs hc b0"
    by blast
  from openHedge_unhedged[OF b0(1,2), of ident e m]
  obtain ps q h where h: "executedPositions ?b = ps @ [q, h]"
      "list_all (\<lambda>p. p_type p \<noteq> HEDGE) (ps @ [q])" "p_type h = HEDGE"
      "price h = avgPrice q + stopLossAmount hc / (totalLot q * cs * dirMult d)"
      "hedgeTriggerPrice ?b = price h" "currentAvgPrice ?b = avgPrice q"
      "currentTotalLot ?b = totalLot q"
    unfolding b0(3) by blast
  from finish_positions[of e m d cs w tp ?b]
  show ?thesis
  proof
    assume "positions (finish e m d cs w tp ?b) = executedPositions ?b"
    then have "positions ?r = ps @ [q, h]" using r h(1) by simp
    then show ?thesis using h hedged r by (simp add: finish_fields)
  next
    assume "\<exists>x. positions (finish e m d cs w tp ?b) = map (remark cs d x) (executedPositions ?b)"
    then obtain x where "positions ?r = map (remark cs d x) ps @ [remark cs d x q, remark cs d x h]"
      using r h(1) by auto
    then show ?thesis using h hedged r by (simp add: finish_fields)
  qed
qed

theorem hedge_trigger_price_witness:
  "s_isHedged (summary scenarioB200)
   \<and> (\<exists>ps q h. positions scenarioB200 = ps @ [q, h]
         \<and> p_type q \<noteq> HEDGE \<and> p_type h = HEDGE
         \<and> price h = avgPrice q + stopLossAmount hedge200 / (totalLot q * Fin 100 * dirMult LONG)
         \<and> s_hedgeTriggerPrice (summary scenarioB200) = Some (price h)
         \<and> s_avgPrice (summary scenarioB200) = avgPrice q
         \<and> s_totalLot (summary scenarioB200) = totalLot q)"
proof -
  have h: "s_isHedged (summary scenarioB200)" by (simp add: scenarioB200_value)
  from hedge_trigger_price[OF h[unfolded scenarioB200_def]] h
  show ?thesis unfolding scenarioB200_def by simp
qed

text \<open>
  C4: a simulation has one hedge position if it is hedged and none otherwise, and the
  cumulative P&L of a hedge position is the configured stop-loss amount itself,
  whatever the trigger price.
\<close>

theorem hedge_lock:
  "length (filter (\<lambda>p. p_type p = HEDGE)
             (positions (calculateSimulation e m step il mu d cs ud hc w tp)))
     = (if s_isHedged (summary (calculateSimulation e m step il mu d cs ud hc w tp)) then 1 else 0)
   \<and> (\<forall>p \<in> set (positions (calculateSimulation e m step il mu d cs ud hc w tp)).
         p_type p = HEDGE \<longrightarrow> cumPnL p = stopLossAmount hc)"
proof (cases "step \<le> Fin 0 \<or> il \<le> Fin 0 \<or> cs \<le> Fin 0")
  case True
  then show ?thesis by (simp add: calculateSimulation_def nullResult_def)
next
  case False
  let ?b = "accumulate e m step il mu d cs ud hc"
  have r: "calculateSimulation e m step il mu d cs ud hc w tp = finish e m d cs w tp ?b"
    using False by (simp add: calculateSimulation_def)
  note lock = basket_lock[of e m step il mu d cs ud hc]
  from finish_positions[of e m d cs w tp ?b]
  show ?thesis
  proof
    assume "positions (finish e m d cs w tp ?b) = executedPositions ?b"
    then show ?thesis using lock r by (simp add: finish_fields list_all_iff)
  next
    assume "\<exists>x. positions (finish e m d cs w tp ?b) = map (remark cs d x) (executedPositions ?b)"
    then obtain x where "positions (finish e m d cs w tp ?b) = map (remark cs d x) (executedPositions ?b)"
      by blast
    then show ?thesis using lock r
      by (simp add: finish_fields list_all_iff filter_map comp_def)
  qed
qed

theorem hedge_lock_witness:
  "length (filter (\<lambda>p. p_type p = HEDGE) (positions scenarioB200)) = 1
   \<and> p_type (last (positions scenarioB200)) = HEDGE
   \<and> cumPnL (last (positions scenarioB200)) = Fin (- 200)"
proof -
  have h: "s_isHedged (summary scenarioB200)" by (simp add: scenarioB200_value)
  have t: "p_type (last (positions scenarioB200)) = HEDGE" by (simp add: scenarioB200_value)
  have "last (positions scenarioB200) \<in> set (positions scenarioB200)"
    by (simp add: scenarioB200_value)
  with hedge_lock[of "Fin 2000" "Fin 1950" "Fin 10" "Fin (1 / 100)" "Fin (14 / 10)" LONG
      "Fin 100" False hedge200 False "Fin 0", folded scenarioB200_def] h t
  show ?thesis by (simp add: hedge200_def)
qed

section \<open>The null simulation and the boundary on the favourable side\<close>

text \<open>
  C5: with a step, an initial lot or a contract size that is at most 0 the engine
  returns, whatever the other inputs are, the empty position list and the summary with
  every number 0, not hedged and without a hedge trigger price.
\<close>

theorem null_simulation:
  assumes "step \<le> Fin 0 \<or> initLot \<le> Fin 0 \<or> contractSize \<le> Fin 0"
  shows "calculateSimulation entryPrice maxPrice step initLot multi direction contractSize
           useDynamic hedgeConfig isWinMode targetProfit
         = \<lparr> positions = [],
             summary = \<lparr> slot = 0, s_avgPrice = Fin 0, pnl = Fin 0, mainPnL = Fin 0,
               hedgePnL = Fin 0, s_totalLot = Fin 0, s_hedgeLot = Fin 0, netLot = Fin 0,
               rangeCovered = Fin 0, beDistance = Fin 0, recoveryGap = Fin 0,
               netAvgPrice = Fin 0, s_isHedged = False, s_hedgeTriggerPrice = None \<rparr> \<rparr>"
  using assms by (simp add: calculateSimulation_def nullResult_def)

theorem null_simulation_witness:
  "(Fin 0 \<le> Fin 0 \<or> Fin (1 / 100) \<le> Fin 0 \<or> Fin 100 \<le> Fin 0)
   \<and> calculateSimulation (Fin 2000) (Fin 1950) (Fin 0) (Fin (1 / 100)) (Fin (14 / 10)) LONG
        (Fin 100) True hedge200 True (Fin 20)
      = \<lparr> positions = [],
          summary = \<lparr> slot = 0, s_avgPrice = Fin 0, pnl = Fin 0, mainPnL = Fin 0,
            hedgePnL = Fin 0, s_totalLot = Fin 0, s_hedgeLot = Fin 0, netLot = Fin 0,
            rangeCovered = Fin 0, beDistance = Fin 0, recoveryGap = Fin 0,
            netAvgPrice = Fin 0, s_isHedged = False, s_hedgeTriggerPrice = None \<rparr> \<rparr>"
proof -
  have h: "Fin 0 \<le> Fin 0 \<or> Fin (1 / 100) \<le> Fin 0 \<or> Fin 100 \<le> Fin 0" by simp
  from null_simulation[OF h] h show ?thesis by blast
qed

text \<open>
  C10: on finite valid inputs with the boundary strictly on the favourable side of the
  entry (above it for LONG, below it for SHORT) no order is filled, and the summary is
  not the null simulation: the gross and the net average price are the entry price, the
  total lot and the break-even distance are 0, and the recovery gap is
  \<open>\<bar>boundary - entry\<bar>\<close>.
\<close>

theorem favourable_boundary:
  assumes "0 < st" and "0 < il" and "0 < c"
    and "(d = LONG \<and> e < m) \<or> (d = SHORT \<and> m < e)"
  shows "calculateSimulation (Fin e) (Fin m) (Fin st) (Fin il) (Fin mu) d (Fin c) ud hc w tp
         = \<lparr> positions = [],
             summary = \<lparr> slot = 0, s_avgPrice = Fin e, pnl = Fin 0, mainPnL = Fin 0,
               hedgePnL = Fin 0, s_totalLot = Fin 0, s_hedgeLot = Fin 0, netLot = Fin 0,
               rangeCovered = Fin \<bar>e - m\<bar>, beDistance = Fin 0, recoveryGap = Fin \<bar>m - e\<bar>,
               netAvgPrice = Fin e, s_isHedged = False, s_hedgeTriggerPrice = None \<rparr> \<rparr>"
proof -
  let ?os = "potentialOrders (Fin e) (Fin m) (Fin st) (Fin il) (Fin mu) d ud"
  have past: "pastBoundary d (Fin m) order" if "order \<in> set ?os" for order
  proof -
    have "0 \<le> st" using assms(1) by simp
    from potentialOrders_adverse[OF this that]
    obtain p l where "o_price order = Fin p" "if d = LONG then p \<le> e else e \<le> p"
      by metis
    then show ?thesis using assms(4) by (auto simp add: pastBoundary_def)
  qed
  have w: "walk (Fin e) (Fin m) d (Fin c) hc ?os (initialBasket (Fin e)) = initialBasket (Fin e)"
    by (rule walk_stops_at_once) (rule past)
  have acc: "accumulate (Fin e) (Fin m) (Fin st) (Fin il) (Fin mu) d (Fin c) ud hc = initialBasket (Fin e)"
    unfolding accumulate_def w
    by (simp add: finalCheck_def hedgeCrossed_def initialBasket_def)
  show ?thesis
    using assms(1-3)
    by (simp add: calculateSimulation_def acc finish_def Let_def initialBasket_def sumPnL_def
        normalizeLot_Fin dirMult_def)
qed

theorem favourable_boundary_witness:
  "(0::real) < 10 \<and> (0::real) < 1 / 100 \<and> (0::real) < 100 \<and> (2000::real) < 2050
   \<and> calculateSimulation (Fin 2000) (Fin 2050) (Fin 10) (Fin (1 / 100)) (Fin (14 / 10)) LONG
        (Fin 100) True hedge200 False (Fin 0)
      = \<lparr> positions = [],
          summary = \<lparr> slot = 0, s_avgPrice = Fin 2000, pnl = Fin 0, mainPnL = Fin 0,
            hedgePnL = Fin 0, s_totalLot = Fin 0, s_hedgeLot = Fin 0, netLot = Fin 0,
            rangeCovered = Fin 50, beDistance = Fin 0, recoveryGap = Fin 50,
            netAvgPrice = Fin 2000, s_isHedged = False, s_hedgeTriggerPrice = None \<rparr> \<rparr>"
proof -
  have v: "(0::real) < 10" "(0::real) < 1 / 100" "(0::real) < 100" by simp_all
  have f: "(LONG = LONG \<and> (2000::real) < 2050) \<or> (LONG = SHORT \<and> (2050::real) < 2000)" by simp
  from favourable_boundary[OF v f, of "14 / 10" True hedge200 False "Fin 0"]
  show ?thesis by simp
qed

section \<open>The main ladder\<close>




section \<open>The average price of a basket of lot zero\<close>

text \<open>
  C8, at an input where the code departs from it: an initial lot of 0.004 is positive, so
  the run is not the null simulation, but it rounds to the lot 0.00; the first position
  has the total lot 0 and the average price \<open>0 / 0 = NaN\<close>. The product of the average
  price and the total lot of this prefix is \<open>NaN\<close>, while its sum of \<open>price * lot\<close> is
  0, so the two are not within \<open>10^-6\<close> of each other.
\<close>

theorem zero_lot_average:
  "Fin 0 < Fin (4 / 1000)
   \<and> price (positions scenarioSmallLot ! 0) = Fin 2000
   \<and> lot (positions scenarioSmallLot ! 0) = Fin 0
   \<and> totalLot (positions scenarioSmallLot ! 0) = Fin 0
   \<and> avgPrice (positions scenarioSmallLot ! 0) = NaN
   \<and> cumPnL (positions scenarioSmallLot ! 0) = NaN
   \<and> avgPrice (positions scenarioSmallLot ! 0) * totalLot (positions scenarioSmallLot ! 0) = NaN
   \<and> price (positions scenarioSmallLot ! 0) * lot (positions scenarioSmallLot ! 0) = Fin 0
   \<and> \<not> \<bar>avgPrice (positions scenarioSmallLot ! 0) * totalLot (positions scenarioSmallLot ! 0)
          - price (positions scenarioSmallLot ! 0) * lot (positions scenarioSmallLot ! 0)\<bar>
        \<le> Fin (1 / 1000000)"
  by code_simp

section \<open>Win mode\<close>

text \<open>
  C9: a run in win mode is the run without win mode (with any target profit) on the same
  other inputs, in which every position's individual P&L is marked again at
  \<open>exitPrice = netAvgPrice + targetProfit * directionSign\<close>, the hedge with the opposite
  sign, and the three P&L sums of the summary are taken over the new values. Nothing else
  changes: the cumulative P&L, price, lot, total lot and average price of every position
  and all other summary fields are those of the run without win mode.
\<close>

theorem win_mode_frame:
  "calculateSimulation entryPrice maxPrice step initLot multi direction contractSize useDynamic
     hedgeConfig True targetProfit =
   (let r = calculateSimulation entryPrice maxPrice step initLot multi direction contractSize
              useDynamic hedgeConfig False otherTarget;
        exitPrice = netAvgPrice (summary r) + (targetProfit * dirMult direction);
        ps = map (\<lambda>p. p \<lparr> indivPnL :=
                     (if p_type p = HEDGE
                      then (exitPrice - price p) * lot p * contractSize * (- dirMult direction)
                      else (exitPrice - price p) * lot p * contractSize * dirMult direction) \<rparr>)
               (positions r)
    in \<lparr> positions = ps,
         summary = (summary r)
           \<lparr> pnl := sumPnL (\<lambda>p. p_type p \<noteq> HEDGE) ps + sumPnL (\<lambda>p. p_type p = HEDGE) ps,
             mainPnL := sumPnL (\<lambda>p. p_type p \<noteq> HEDGE) ps,
             hedgePnL := sumPnL (\<lambda>p. p_type p = HEDGE) ps \<rparr> \<rparr>)"
proof -
  have remark_fun: "\<And>x. remark contractSize direction x =
      (\<lambda>p. p \<lparr> indivPnL :=
         (if p_type p = HEDGE
          then (x - price p) * lot p * contractSize * (- dirMult direction)
          else (x - price p) * lot p * contractSize * dirMult direction) \<rparr>)"
    by (rule ext) (simp add: remark_def Let_def)
  show ?thesis
    unfolding remark_fun[symmetric]
    by (simp add: calculateSimulation_def finish_def Let_def filter_map comp_def nullResult_def
        sumPnL_def)
qed

theorem win_mode_frame_witness:
  "map cumPnL (positions (calculateSimulation (Fin 2000) (Fin 1950) (Fin 10) (Fin (1 / 100))
        (Fin (14 / 10)) LONG (Fin 100) False hedge200 True (Fin 20)))
   = map cumPnL (positions scenarioB200)
   \<and> map indivPnL (positions (calculateSimulation (Fin 2000) (Fin 1950) (Fin 10) (Fin (1 / 100))
        (Fin (14 / 10)) LONG (Fin 100) False hedge200 True (Fin 20)))
   = [Fin (- (480 / 11)), Fin (- (370 / 11)), Fin (- (520 / 11)), Fin (- (450 / 11)),
      Fin (- (160 / 11)), Fin (- 40)]"
  using win_mode_frame[of "Fin 2000" "Fin 1950" "Fin 10" "Fin (1 / 100)" "Fin (14 / 10)" LONG
      "Fin 100" False hedge200 "Fin 20" "Fin 0", folded scenarioB200_def]
  by (simp add: scenarioB200_value dirMult_def Let_def)

section \<open>The solvers' guards\<close>

text \<open>
  C6, as amended: \<^verbatim>\<open>solveForTargetBE\<close> leaves the state as it is for a target that is at
  most 0 or not a number. \<^verbatim>\<open>solveForTargetPnL\<close> has no such guard: for every target, one
  that is at most 0 included, it runs its bisection, whose first round at the distance
  \<open>(0.1 + 5000) / 2\<close> ends it if the P&L there is within 10 of the target, and then
  writes the range \<open>\<bar>entry - bestMax\<bar>\<close> and the maximum price \<open>bestMax\<close>, both with two
  decimals. Neither solver fails.
\<close>

theorem solver_guards:
  "(falsy t \<or> t \<le> Fin 0 \<longrightarrow> solveForTargetBE s t = s)
   \<and> solveForTargetPnL s t
       = s \<lparr> app_range := toFixed2 \<bar>app_entryPrice s
                             - bisectPnL 30 s t (Fin (1 / 10)) (Fin 5000) (app_maxPrice s)\<bar>,
             app_maxPrice := toFixed2 (bisectPnL 30 s t (Fin (1 / 10)) (Fin 5000) (app_maxPrice s)) \<rparr>
   \<and> (\<bar>pnl (summary (simulateAt s (testMaxAt s ((Fin (1 / 10) + Fin 5000) / Fin 2)))) - t\<bar> < Fin 10
        \<longrightarrow> bisectPnL 30 s t (Fin (1 / 10)) (Fin 5000) (app_maxPrice s)
             = testMaxAt s ((Fin (1 / 10) + Fin 5000) / Fin 2))"
proof -
  have "bisectPnL 30 s t (Fin (1 / 10)) (Fin 5000) (app_maxPrice s)
          = testMaxAt s ((Fin (1 / 10) + Fin 5000) / Fin 2)"
    if "\<bar>pnl (summary (simulateAt s (testMaxAt s ((Fin (1 / 10) + Fin 5000) / Fin 2)))) - t\<bar> < Fin 10"
  proof -
    have "bisectPnL (Suc 29) s t (Fin (1 / 10)) (Fin 5000) (app_maxPrice s)
          = testMaxAt s ((Fin (1 / 10) + Fin 5000) / Fin 2)"
      unfolding bisectPnL.simps Let_def using that by (simp del: plus_jsnum.simps divide_jsnum.simps)
    then show ?thesis by simp
  qed
  then show ?thesis
    by (simp add: solveForTargetBE_def solveForTargetPnL_def setRangeAndMax_def Let_def
        del: plus_jsnum.simps divide_jsnum.simps)
qed

theorem solver_guards_witness:
  "Fin (- 2500) \<le> Fin 0
   \<and> solveForTargetBE (appDefault \<lparr> app_step := Fin 5000 \<rparr>) (Fin (- 2500))
       = appDefault \<lparr> app_step := Fin 5000 \<rparr>
   \<and> \<bar>pnl (summary (simulateAt (appDefault \<lparr> app_step := Fin 5000 \<rparr>)
          (testMaxAt (appDefault \<lparr> app_step := Fin 5000 \<rparr>) ((Fin (1 / 10) + Fin 5000) / Fin 2))))
        - Fin (- 2500)\<bar> < Fin 10
   \<and> bisectPnL 30 (appDefault \<lparr> app_step := Fin 5000 \<rparr>) (Fin (- 2500)) (Fin (1 / 10)) (Fin 5000)
        (app_maxPrice (appDefault \<lparr> app_step := Fin 5000 \<rparr>))
       = testMaxAt (appDefault \<lparr> app_step := Fin 5000 \<rparr>) ((Fin (1 / 10) + Fin 5000) / Fin 2)"
proof -
  have g: "Fin (- 2500) \<le> Fin 0" by simp
  have c: "\<bar>pnl (summary (simulateAt (appDefault \<lparr> app_step := Fin 5000 \<rparr>)
          (testMaxAt (appDefault \<lparr> app_step := Fin 5000 \<rparr>) ((Fin (1 / 10) + Fin 5000) / Fin 2))))
        - Fin (- 2500)\<bar> < Fin 10"
    by code_simp
  from solver_guards[of "Fin (- 2500)" "appDefault \<lparr> app_step := Fin 5000 \<rparr>"] g c
  show ?thesis by blast
qed

theorem solver_guards_counterexample:
  "Fin (- 2500) \<le> Fin 0
   \<and> app_range (appDefault \<lparr> app_step := Fin 5000 \<rparr>) = Fin 50
   \<and> app_maxPrice (appDefault \<lparr> app_step := Fin 5000 \<rparr>) = Fin 1950
   \<and> app_range (solveForTargetPnL (appDefault \<lparr> app_step := Fin 5000 \<rparr>) (Fin (- 2500)))
       = Fin (250005 / 100)
   \<and> app_maxPrice (solveForTargetPnL (appDefault \<lparr> app_step := Fin 5000 \<rparr>) (Fin (- 2500)))
       = Fin (- (50005 / 100))"
  by code_simp

end
